theory Spec2Isabelle
  imports Complex_Main "HOL-Library.Word" "HOL-Library.Multiset"
begin

unbundle bit_operations_syntax

section \<open>Component types and the tables of enums.js\<close>

text \<open>
  The renderer of \<^verbatim>\<open>src/rendering/renderer.js\<close> indexes three tables with a member of the
  \<^verbatim>\<open>Type\<close> enumeration: \<^verbatim>\<open>TypeConstructor\<close> (the typed-array class, read for its
  \<^verbatim>\<open>BYTES_PER_ELEMENT\<close>), \<^verbatim>\<open>TypeFormat\<close> (the scalar vertex-format tag) and \<^verbatim>\<open>TypeMap\<close>
  (the name of the \<^verbatim>\<open>DataView\<close> setter). The file that declares them, \<^verbatim>\<open>enums.js\<close>, is not
  among the sources; the members used by the code are \<^verbatim>\<open>u8, i8, u16, i16, f32\<close>, and the
  earlier renderer kept in the repository switches over the seven typed-array classes
  below.
\<close>

type_synonym byte = "8 word"

datatype Type = u8 | i8 | u16 | i16 | u32 | i32 | f32

text \<open>Modelled from the spec: the table \<^verbatim>\<open>TypeConstructor[type].BYTES_PER_ELEMENT\<close> of the
  missing \<^verbatim>\<open>enums.js\<close> (the spec's component byte width), with the widths of the typed-array
  classes \<^verbatim>\<open>Uint8Array .. Float32Array\<close>.\<close>

fun BYTES_PER_ELEMENT :: "Type \<Rightarrow> nat" where
  "BYTES_PER_ELEMENT u8 = 1"
| "BYTES_PER_ELEMENT i8 = 1"
| "BYTES_PER_ELEMENT u16 = 2"
| "BYTES_PER_ELEMENT i16 = 2"
| "BYTES_PER_ELEMENT u32 = 4"
| "BYTES_PER_ELEMENT i32 = 4"
| "BYTES_PER_ELEMENT f32 = 4"

text \<open>Modelled from the spec: the table \<^verbatim>\<open>TypeFormat\<close> of the missing \<^verbatim>\<open>enums.js\<close> (the
  spec's bare scalar wire-format tag), with the scalar tags of the \<^verbatim>\<open>GPUTypeFormat\<close> type
  declared in the repository.\<close>

fun TypeFormat :: "Type \<Rightarrow> string" where
  "TypeFormat u8 = ''uint8''"
| "TypeFormat i8 = ''sint8''"
| "TypeFormat u16 = ''uint16''"
| "TypeFormat i16 = ''sint16''"
| "TypeFormat u32 = ''uint32''"
| "TypeFormat i32 = ''sint32''"
| "TypeFormat f32 = ''float32''"

section \<open>Errors\<close>

text \<open>
  Every \<^verbatim>\<open>throw\<close> of the sources is a constructor, with the parts of its message that
  vary; the last three stand for the errors the JavaScript host raises by itself: a
  typed-array view over a buffer whose byte length is no multiple of the element width, a
  \<^verbatim>\<open>DataView\<close> write outside its buffer, and a property read on \<^verbatim>\<open>undefined\<close> or \<^verbatim>\<open>null\<close>.
  The message of \<open>SizeMismatch\<close> is \<^verbatim>\<open>array size mismatch: ${descriptor.values}. Actual
  length of this array must be ${len*descriptor.size}\<close>: the constructor carries the text
  the first interpolation gives and the number of the second.
\<close>

datatype error =
    IdInUse string
  | NoEntity string
  | IllegalSize nat Type
  | SizeMismatch string rat
  | GlobalExists string
  | GlobalMissing string
  | NoScene nat
  | NoCamera nat
  | ViewLength
  | ViewBounds
  | UndefinedAccess

datatype error_class = ReferenceError | TypeError | RangeError | PlainError

fun class_of :: "error \<Rightarrow> error_class" where
  "class_of (IdInUse _) = ReferenceError"
| "class_of (NoEntity _) = ReferenceError"
| "class_of (IllegalSize _ _) = TypeError"
| "class_of (SizeMismatch _ _) = RangeError"
| "class_of (GlobalExists _) = ReferenceError"
| "class_of (GlobalMissing _) = ReferenceError"
| "class_of (NoScene _) = PlainError"
| "class_of (NoCamera _) = PlainError"
| "class_of ViewLength = RangeError"
| "class_of ViewBounds = RangeError"
| "class_of UndefinedAccess = TypeError"

section \<open>Vertex format derivation\<close>

text \<open>The decimal rendering of a count inside a template string.\<close>

definition digit :: "nat \<Rightarrow> char" where
  "digit n = ''0123456789'' ! (n mod 10)"

fun decimal :: "nat \<Rightarrow> string" where
  "decimal n = (if n < 10 then [digit n] else decimal (n div 10) @ [digit (n mod 10)])"

declare decimal.simps [simp del]

text \<open>\<^verbatim>\<open>Renderer.#typeToFormat\<close>.\<close>

definition typeToFormat :: "Type \<Rightarrow> nat \<Rightarrow> error + string" where
  "typeToFormat type sz =
     (if (sz = 1 \<or> sz = 3) \<and> (type = u8 \<or> type = u16 \<or> type = i8 \<or> type = i16)
      then Inl (IllegalSize sz type)
      else if sz = 1 then Inr (TypeFormat type)
      else Inr (TypeFormat type @ ''x'' @ decimal sz))"

section \<open>Program descriptors\<close>

text \<open>
  The caller's \<^verbatim>\<open>GPUCompilableProgram\<close>. Field names carry a prefix where two records of
  the source share a name (\<^verbatim>\<open>type\<close>, \<^verbatim>\<open>size\<close>). An \<^verbatim>\<open>ArrayBuffer\<close> is the list of its bytes;
  an optional field is an \<open>option\<close>, with \<open>None\<close> for \<^verbatim>\<open>undefined\<close>. The indices, an
  array of numbers, are taken to be whole and not negative.
\<close>

record VertexTransferable =
  v_location :: nat
  v_type :: Type
  v_size :: nat
  v_values :: "byte list"

record GlobalRef =
  g_id :: "string option"
  g_isCamera :: bool
  g_byteOffset :: "nat option"

record BufferSlot =
  b_type :: Type
  b_size :: nat
  b_global :: "GlobalRef option"

record TextureSlot =
  t_img :: string
  t_width :: int
  t_height :: int
  t_offsetX :: "int option"
  t_offsetY :: "int option"
  t_format :: string
  t_dimension :: "string option"

record AddressModes =
  am_u :: "string option"
  am_v :: "string option"
  am_w :: "string option"

record SamplerSlot =
  s_addressMode :: AddressModes
  s_compare :: "string option"
  s_lodMinClamp :: "nat option"
  s_lodMaxClamp :: "nat option"
  s_maxAnisotropy :: "nat option"
  s_magFilter :: "string option"
  s_minFilter :: "string option"
  s_mipmapFilter :: "string option"

text \<open>The resource of a binding. The source tells the three apart by the fields present
  (\<^verbatim>\<open>'type' in resource\<close>, then \<^verbatim>\<open>'img' in resource\<close>, a sampler otherwise).\<close>

datatype Resource = Buffer BufferSlot | Texture TextureSlot | Sampler SamplerSlot

datatype Stage = vertex | fragment

record GPUBinding =
  usage :: Stage
  resource :: Resource

record GPUCompilableProgram =
  code :: string
  topology :: "string option"
  cullMode :: "string option"
  vertexEntryPoint :: "string option"
  fragmentEntryPoint :: "string option"
  vertexDescriptor :: "VertexTransferable list"
  groups :: "GPUBinding list list"
  indices :: "nat list"

text \<open>JavaScript's \<^verbatim>\<open>a || d\<close> on an optional string or number: the default replaces
  \<^verbatim>\<open>undefined\<close>, the empty string and zero.\<close>

fun or_str :: "string option \<Rightarrow> string \<Rightarrow> string" where
  "or_str None d = d"
| "or_str (Some s) d = (if s = [] then d else s)"

fun or_nat :: "nat option \<Rightarrow> nat \<Rightarrow> nat" where
  "or_nat None d = d"
| "or_nat (Some n) d = (if n = 0 then d else n)"

fun or_int :: "int option \<Rightarrow> int \<Rightarrow> int" where
  "or_int None d = d"
| "or_int (Some n) d = (if n = 0 then d else n)"

section \<open>The graphics device\<close>

text \<open>
  The device is outside the repository. The model keeps what the code can observe of it:
  every object it creates is a fresh handle, and every call the code makes is appended to
  a log. Driver faults are reported later through error scopes and the console and never
  change the control flow of the caller, so error scopes are left out of the log.
\<close>

type_synonym handle = nat

datatype BufferUsage = usage_vertex | usage_uniform | usage_index

datatype IndexType = uint16 | uint32

record ImageBitmap =
  i_url :: string
  i_x :: int
  i_y :: int
  i_width :: "int option"
  i_height :: "int option"

datatype LayoutKind = layout_buffer | layout_texture | layout_sampler

record LayoutEntry =
  l_binding :: nat
  l_visibility :: Stage
  l_kind :: LayoutKind

datatype EntryResource =
    BufferBinding "handle option" "nat option" nat
  | TextureResource handle
  | SamplerResource handle

record GroupEntry =
  e_binding :: nat
  e_resource :: EntryResource

record SamplerParams =
  addressModeU :: string
  addressModeV :: string
  addressModeW :: string
  compare :: "string option"
  lodMaxClamp :: nat
  lodMinClamp :: nat
  maxAnisotropy :: nat
  magFilter :: string
  minFilter :: string
  mipmapFilter :: string

record VertexAttribute =
  shaderLocation :: nat
  a_offset :: nat
  format :: string

record PipelineDescriptor =
  p_layout :: handle
  p_cullMode :: string
  p_topology :: string
  p_vertexEntry :: string
  p_fragmentEntry :: string
  p_module :: handle
  p_arrayStride :: nat
  p_attributes :: "VertexAttribute list"
  p_format :: string

text \<open>A value uploaded to a buffer: the bytes of an \<^verbatim>\<open>ArrayBuffer\<close> seen through a typed
  array, or a typed array built from a list of numbers.\<close>

datatype Payload = View Type "byte list" | Numbers Type "rat list"

datatype Command =
    SetPipeline handle
  | SetVertexBuffer nat handle
  | SetBindGroup nat handle
  | SetIndexBuffer handle IndexType
  | DrawIndexed nat

datatype GPUCall =
    CreateBuffer handle BufferUsage nat
  | SetMapped handle IndexType "nat list"
  | WriteBuffer "handle option" "nat option" Payload
  | WriteBytes handle nat "byte list"
  | CreateBindGroupLayout handle "LayoutEntry list"
  | CreateTexture handle string string int int
  | CopyExternalImageToTexture ImageBitmap "handle option" "int option" "int option"
  | CreateSampler handle SamplerParams
  | CreateBindGroup handle nat "handle option" "GroupEntry list"
  | CreateShaderModule handle string
  | CreatePipelineLayout handle "handle list"
  | CreateRenderPipeline handle PipelineDescriptor
  | Destroy handle
  | Submit "Command list"
  | Warn string

record Device =
  nextHandle :: handle
  calls :: "GPUCall list"

text \<open>A call that creates an object: the next handle, and the call in the log.\<close>

definition alloc :: "(handle \<Rightarrow> GPUCall) \<Rightarrow> Device \<Rightarrow> handle \<times> Device" where
  "alloc c d = (nextHandle d, d\<lparr>nextHandle := Suc (nextHandle d), calls := calls d @ [c (nextHandle d)]\<rparr>)"

text \<open>A call that creates nothing.\<close>

definition emit :: "GPUCall \<Rightarrow> Device \<Rightarrow> Device" where
  "emit c d = d\<lparr>calls := calls d @ [c]\<rparr>"

section \<open>The renderer (src/rendering/renderer.js)\<close>

text \<open>Modelled from the spec: the constant \<^verbatim>\<open>DEFAULT_CAMERA_BUFFER_ID\<close> of the missing
  \<^verbatim>\<open>enums.js\<close>, the name of the global buffer that holds the camera matrix. Nothing below
  depends on its value.\<close>

definition DEFAULT_CAMERA_BUFFER_ID :: string where
  "DEFAULT_CAMERA_BUFFER_ID = ''camera''"

record UniformDescriptor =
  u_offset :: "nat option"
  u_size :: "nat option"
  u_type :: "Type option"
  u_width :: "int option"
  u_height :: "int option"
  u_texture :: "handle option"

text \<open>The \<^verbatim>\<open>GPUExecutable\<close>. Its \<^verbatim>\<open>updateBinding\<close> closes over \<^verbatim>\<open>uniforms\<close> and
  \<^verbatim>\<open>uniformBuffer\<close>, which are also fields, and is the function \<open>updateBinding\<close> below.\<close>

record GPUExecutable =
  z :: "int option"
  indexType :: IndexType
  vertexCount :: nat
  indexBuffer :: handle
  pipeline :: handle
  bindGroups :: "handle list"
  uniforms :: "UniformDescriptor list list"
  uniformBuffer :: "handle option"
  vertexBuffer :: "handle option"

record Renderer =
  globalBuffers :: "string \<rightharpoonup> handle"
  targetFormat :: string
  zNext :: nat
  device :: Device

text \<open>\<^verbatim>\<open>xs[i]\<close>, which is \<^verbatim>\<open>undefined\<close> out of range.\<close>

definition nth_opt :: "'a list \<Rightarrow> nat \<Rightarrow> 'a option" where
  "nth_opt xs i = (if i < length xs then Some (xs ! i) else None)"

definition isTypeOfBuffer :: "GPUBinding \<Rightarrow> bool" where
  "isTypeOfBuffer b = (case resource b of Buffer _ \<Rightarrow> True | _ \<Rightarrow> False)"

definition isTypeOfTexture :: "GPUBinding \<Rightarrow> bool" where
  "isTypeOfTexture b = (case resource b of Texture _ \<Rightarrow> True | _ \<Rightarrow> False)"

definition getBufferSize :: "BufferSlot \<Rightarrow> nat" where
  "getBufferSize s = BYTES_PER_ELEMENT (b_type s) * b_size s"

text \<open>\<^verbatim>\<open>!resource.global || !resource.global.id ? getBufferSize(binding) : 0\<close>.\<close>

definition getBufferLocalSize :: "BufferSlot \<Rightarrow> nat" where
  "getBufferLocalSize s =
     (case b_global s of
        None \<Rightarrow> getBufferSize s
      | Some g \<Rightarrow> if or_str (g_id g) [] = [] then getBufferSize s else 0)"

subsection \<open>Bind-group layouts\<close>

definition layoutEntry :: "nat \<Rightarrow> GPUBinding \<Rightarrow> LayoutEntry" where
  "layoutEntry j b =
     \<lparr>l_binding = j,
      l_visibility = (if usage b = fragment then fragment else vertex),
      l_kind = (if isTypeOfBuffer b then layout_buffer
                else if isTypeOfTexture b then layout_texture else layout_sampler)\<rparr>"

fun createGroupLayout :: "GPUBinding list list \<Rightarrow> Device \<Rightarrow> handle list \<times> Device" where
  "createGroupLayout [] d = ([], d)"
| "createGroupLayout (g # gs) d =
     (let (h, d1) = alloc (\<lambda>h. CreateBindGroupLayout h (map2 layoutEntry [0..<length g] g)) d;
          (hs, d2) = createGroupLayout gs d1
      in (h # hs, d2))"

subsection \<open>The uniform buffer\<close>

definition slotSize :: "GPUBinding \<Rightarrow> nat" where
  "slotSize b = (case resource b of Buffer s \<Rightarrow> getBufferLocalSize s | _ \<Rightarrow> 0)"

definition uniformSize :: "GPUBinding list list \<Rightarrow> nat" where
  "uniformSize gs = fold (\<lambda>g size'. fold (\<lambda>b size'. size' + slotSize b) g size') gs 0"

definition createUniformBuffer :: "GPUBinding list list \<Rightarrow> Device \<Rightarrow> handle option \<times> Device" where
  "createUniformBuffer gs d =
     (if length gs \<le> 0 then (None, d)
      else let (h, d1) = alloc (\<lambda>h. CreateBuffer h usage_uniform (uniformSize gs)) d
           in (Some h, d1))"

subsection \<open>The index buffer\<close>

text \<open>The values \<^verbatim>\<open>i\<close> of \<^verbatim>\<open>for( let i = 0; i < size; i++ )\<close> for a number \<^verbatim>\<open>size\<close>, which need
  not be whole.\<close>

definition upto_number :: "rat \<Rightarrow> nat list" where
  "upto_number n = [0..<nat \<lceil>n\<rceil>]"

fun index_bytes :: "IndexType \<Rightarrow> nat" where
  "index_bytes uint16 = 2"
| "index_bytes uint32 = 4"

record IndexBufferResult =
  ib_buffer :: handle
  ib_vertexCount :: nat
  ib_type :: IndexType

text \<open>\<^verbatim>\<open>Renderer.#createIndexBuffer\<close>. \<^verbatim>\<open>range.set( indices )\<close> stores each index modulo two
  to the power of the width of the typed array. The indices made up for an empty list
  are pushed onto the caller's array; the model gives the list to this call only and
  does not hand it back to the caller.\<close>

definition createIndexBuffer :: "nat list \<Rightarrow> rat \<Rightarrow> Device \<Rightarrow> IndexBufferResult \<times> Device" where
  "createIndexBuffer indices0 size' d =
     (let MAX_U16 = 65535;
          (indices1, d1) =
             (if length indices0 \<le> 0
              then (indices0 @ upto_number size', emit (Warn ''[wgpu] no indices found.'') d)
              else (indices0, d));
          type = (if size' > MAX_U16 then uint32 else uint16);
          (buffer, d2) = alloc (\<lambda>h. CreateBuffer h usage_index (length indices1 * index_bytes type)) d1;
          d3 = emit (SetMapped buffer type (map (\<lambda>i. i mod 2 ^ (8 * index_bytes type)) indices1)) d2
      in (\<lparr>ib_buffer = buffer, ib_vertexCount = length indices1, ib_type = type\<rparr>, d3))"

subsection \<open>The vertex buffer\<close>

text \<open>
  \<^verbatim>\<open>(values.byteLength / BYTES_PER_ELEMENT) / size\<close>, a JavaScript number: the quotient is
  not rounded. The component count is 1 to 4 by its declared type; at zero JavaScript
  gives \<^verbatim>\<open>Infinity\<close> or \<^verbatim>\<open>NaN\<close> where HOL gives 0, so the properties below are stated for
  positive counts.
\<close>

definition elemCount :: "VertexTransferable \<Rightarrow> rat" where
  "elemCount v = (of_nat (length (v_values v)) / of_nat (BYTES_PER_ELEMENT (v_type v))) / of_nat (v_size v)"

text \<open>\<^verbatim>\<open>new TypeConstructor[type]( buffer )\<close>: a view of whole elements, refused when the byte
  length is no multiple of the element width. An element is kept as its bytes.\<close>

definition typedArray :: "Type \<Rightarrow> byte list \<Rightarrow> error + byte list list" where
  "typedArray t bs =
     (if length bs mod BYTES_PER_ELEMENT t \<noteq> 0 then Inl ViewLength
      else Inr (map (\<lambda>k. take (BYTES_PER_ELEMENT t) (drop (k * BYTES_PER_ELEMENT t) bs))
                  [0..<length bs div BYTES_PER_ELEMENT t]))"

text \<open>
  The four bytes of a \<^verbatim>\<open>Float32Array\<close> element, least significant first, encode a NaN
  when the exponent bits are all set and the fraction is not zero.
\<close>

definition isNaN32 :: "byte list \<Rightarrow> bool" where
  "isNaN32 bs \<longleftrightarrow>
     length bs = 4 \<and> (bs ! 3) AND 0x7F = 0x7F \<and> (bs ! 2) AND 0x80 = 0x80
     \<and> ((bs ! 2) AND 0x7F \<noteq> 0 \<or> bs ! 1 \<noteq> 0 \<or> bs ! 0 \<noteq> 0)"

text \<open>
  \<^verbatim>\<open>view[ TypeMap[type] ]( offset, arrays[j][n], true )\<close>: the element is read from the typed
  array as a number and the \<^verbatim>\<open>DataView\<close> setter of the same type writes that number,
  least significant byte first. On a little-endian host, the only kind on which the
  typed-array view and the setter agree, the integer types and every \<^verbatim>\<open>f32\<close> that is a
  number come back as the element's own bytes. A NaN is written in an encoding the host
  chooses; the model takes the one that keeps sign and payload and sets the quiet bit,
  which is what the conversion between the two float widths gives. \<^verbatim>\<open>undefined\<close>, read
  past the end of the array, is written as zero by the integer setters and as the quiet
  NaN by the \<^verbatim>\<open>f32\<close> setter.
\<close>

definition encodeLE :: "Type \<Rightarrow> byte list option \<Rightarrow> byte list" where
  "encodeLE t v =
     (case v of
        Some bs \<Rightarrow> if t = f32 \<and> isNaN32 bs then bs[2 := (bs ! 2) OR 0x40] else bs
      | None \<Rightarrow> if t = f32 then [0, 0, 0xC0, 0x7F] else replicate (BYTES_PER_ELEMENT t) 0)"

text \<open>A \<^verbatim>\<open>DataView\<close> write, refused outside the buffer.\<close>

definition setView :: "nat \<Rightarrow> byte list \<Rightarrow> byte list \<Rightarrow> error + byte list" where
  "setView offset bs buf =
     (if offset + length bs > length buf then Inl ViewBounds
      else Inr (take offset buf @ bs @ drop (offset + length bs) buf))"

text \<open>The loop over \<^verbatim>\<open>k\<close> of \<^verbatim>\<open>#chainArrays\<close>; \<open>base\<close> is \<^verbatim>\<open>i * buffers[j].size\<close>.\<close>

fun chainComponents ::
  "Type \<Rightarrow> byte list list \<Rightarrow> nat \<Rightarrow> nat list \<Rightarrow> nat \<times> byte list \<Rightarrow> error + nat \<times> byte list" where
  "chainComponents t arr base [] st = Inr st"
| "chainComponents t arr base (k # ks) (offset, buf) =
     (case setView offset (encodeLE t (nth_opt arr (k + base))) buf of
        Inl e \<Rightarrow> Inl e
      | Inr buf' \<Rightarrow> chainComponents t arr base ks (offset + BYTES_PER_ELEMENT t, buf'))"

text \<open>The loop over \<^verbatim>\<open>j\<close>, which creates the view of a buffer the first time it meets it.\<close>

fun chainBuffers ::
  "nat \<Rightarrow> nat \<Rightarrow> VertexTransferable list \<Rightarrow> byte list list list \<times> nat \<times> byte list
     \<Rightarrow> error + byte list list list \<times> nat \<times> byte list" where
  "chainBuffers i j [] st = Inr st"
| "chainBuffers i j (b # bs) (arrays, offset, buf) =
     (case (if length arrays \<le> j
            then (case typedArray (v_type b) (v_values b) of
                    Inl e \<Rightarrow> Inl e
                  | Inr a \<Rightarrow> Inr (arrays @ [a]))
            else Inr arrays) of
        Inl e \<Rightarrow> Inl e
      | Inr arrays' \<Rightarrow>
          (case nth_opt arrays' j of
             None \<Rightarrow> Inl UndefinedAccess
           | Some arr \<Rightarrow>
               (case chainComponents (v_type b) arr (i * v_size b) [0..<v_size b] (offset, buf) of
                  Inl e \<Rightarrow> Inl e
                | Inr (offset', buf') \<Rightarrow> chainBuffers i (Suc j) bs (arrays', offset', buf'))))"

text \<open>The loop over \<^verbatim>\<open>i\<close>.\<close>

fun chainElements ::
  "nat list \<Rightarrow> VertexTransferable list \<Rightarrow> byte list list list \<times> nat \<times> byte list
     \<Rightarrow> error + byte list list list \<times> nat \<times> byte list" where
  "chainElements [] bs st = Inr st"
| "chainElements (i # is) bs st =
     (case chainBuffers i 0 bs st of
        Inl e \<Rightarrow> Inl e
      | Inr st' \<Rightarrow> chainElements is bs st')"

text \<open>\<^verbatim>\<open>Renderer.#chainArrays\<close>; \<^verbatim>\<open>new ArrayBuffer( bytes )\<close> takes the integer part of
  \<^verbatim>\<open>bytes\<close>.\<close>

definition chainArrays :: "VertexTransferable list \<Rightarrow> rat \<Rightarrow> error + byte list" where
  "chainArrays buffers bytes =
     (case buffers of
        [] \<Rightarrow> Inl UndefinedAccess
      | b0 # _ \<Rightarrow>
          (case chainElements (upto_number (elemCount b0)) buffers
                  ([], 0, replicate (nat \<lfloor>bytes\<rfloor>) 0) of
             Inl e \<Rightarrow> Inl e
           | Inr (_, _, buf) \<Rightarrow> Inr buf))"

text \<open>The loop of \<^verbatim>\<open>#createVertexBuffer\<close> over the descriptors. The message of its
  error interpolates \<^verbatim>\<open>descriptor.values\<close>, an \<^verbatim>\<open>ArrayBuffer\<close>, which reads
  \<^verbatim>\<open>[object ArrayBuffer]\<close> in a template string.\<close>

fun vertexAttributes ::
  "rat \<Rightarrow> VertexTransferable list \<Rightarrow> nat \<Rightarrow> VertexAttribute list
     \<Rightarrow> error + VertexAttribute list \<times> nat" where
  "vertexAttributes len [] stride attrs = Inr (attrs, stride)"
| "vertexAttributes len (v # vs) stride attrs =
     (if elemCount v \<noteq> len
      then Inl (SizeMismatch ''[object ArrayBuffer]'' (len * of_nat (v_size v)))
      else case typeToFormat (v_type v) (v_size v) of
             Inl e \<Rightarrow> Inl e
           | Inr f \<Rightarrow>
               vertexAttributes len vs (stride + v_size v * BYTES_PER_ELEMENT (v_type v))
                 (attrs @ [\<lparr>shaderLocation = v_location v, a_offset = stride, format = f\<rparr>]))"

record VertexBufferResult =
  vb_buffer :: "handle option"
  vb_attributes :: "VertexAttribute list"
  vb_stride :: nat
  vb_size :: rat

text \<open>\<^verbatim>\<open>Renderer.#createVertexBuffer\<close>. The device takes the integer part of the size.\<close>

definition createVertexBuffer ::
  "VertexTransferable list \<Rightarrow> Device \<Rightarrow> (error + VertexBufferResult) \<times> Device" where
  "createVertexBuffer vd d =
     (case vd of
        [] \<Rightarrow> (Inr \<lparr>vb_buffer = None, vb_attributes = [], vb_stride = 0, vb_size = 0\<rparr>, d)
      | v0 # _ \<Rightarrow>
          (let len = elemCount v0 in
           case vertexAttributes len vd 0 [] of
             Inl e \<Rightarrow> (Inl e, d)
           | Inr (attrs, stride) \<Rightarrow>
               (let size' = of_nat stride * len;
                    (buffer, d1) = alloc (\<lambda>h. CreateBuffer h usage_vertex (nat \<lfloor>size'\<rfloor>)) d
                in case chainArrays vd size' of
                     Inl e \<Rightarrow> (Inl e, d1)
                   | Inr data \<Rightarrow>
                       (Inr \<lparr>vb_buffer = Some buffer, vb_attributes = attrs,
                             vb_stride = stride, vb_size = len\<rparr>,
                        emit (WriteBytes buffer 0 data) d1))))"

subsection \<open>Bind groups\<close>

text \<open>\<^verbatim>\<open>uniforms[i].push( d )\<close>, a type error when \<^verbatim>\<open>uniforms[i]\<close> is \<^verbatim>\<open>undefined\<close>.\<close>

definition push_uniform ::
  "nat \<Rightarrow> UniformDescriptor \<Rightarrow> UniformDescriptor list list \<Rightarrow> error + UniformDescriptor list list" where
  "push_uniform i u us = (if i < length us then Inr (us[i := us ! i @ [u]]) else Inl UndefinedAccess)"

definition bufferUniform :: "nat \<Rightarrow> nat \<Rightarrow> Type \<Rightarrow> UniformDescriptor" where
  "bufferUniform offset sz t =
     \<lparr>u_offset = Some offset, u_size = Some sz, u_type = Some t,
      u_width = None, u_height = None, u_texture = None\<rparr>"

definition textureUniform :: "int \<Rightarrow> int \<Rightarrow> handle \<Rightarrow> UniformDescriptor" where
  "textureUniform w h tex =
     \<lparr>u_offset = None, u_size = None, u_type = None,
      u_width = Some w, u_height = Some h, u_texture = Some tex\<rparr>"

definition samplerUniform :: UniformDescriptor where
  "samplerUniform =
     \<lparr>u_offset = None, u_size = None, u_type = None,
      u_width = None, u_height = None, u_texture = None\<rparr>"

text \<open>\<^verbatim>\<open>Renderer.#loadImage\<close>: the bitmap is named by what it was cut from. Fetching and
  decoding are the host's, and are taken to succeed.\<close>

definition loadImage :: "string \<Rightarrow> int \<Rightarrow> int \<Rightarrow> int option \<Rightarrow> int option \<Rightarrow> ImageBitmap" where
  "loadImage url x y w h = \<lparr>i_url = url, i_x = x, i_y = y, i_width = w, i_height = h\<rparr>"

definition samplerParams :: "SamplerSlot \<Rightarrow> SamplerParams" where
  "samplerParams s =
     \<lparr>addressModeU = or_str (am_u (s_addressMode s)) ''clamp-to-edge'',
      addressModeV = or_str (am_v (s_addressMode s)) ''clamp-to-edge'',
      addressModeW = or_str (am_w (s_addressMode s)) ''clamp-to-edge'',
      compare = (case s_compare s of None \<Rightarrow> None | Some c \<Rightarrow> if c = [] then None else Some c),
      lodMaxClamp = or_nat (s_lodMaxClamp s) 32,
      lodMinClamp = or_nat (s_lodMinClamp s) 0,
      maxAnisotropy = or_nat (s_maxAnisotropy s) 1,
      magFilter = or_str (s_magFilter s) ''nearest'',
      minFilter = or_str (s_minFilter s) ''nearest'',
      mipmapFilter = or_str (s_mipmapFilter s) ''nearest''\<rparr>"

text \<open>
  The state of the two loops of \<^verbatim>\<open>#createBindGroup\<close>: the device, the running \<^verbatim>\<open>offset\<close>
  and the \<^verbatim>\<open>uniforms\<close> table. The body of the inner loop for binding \<open>j\<close> of group \<open>i\<close>
  gives the entry, or the error it throws, and the state it leaves.
\<close>

type_synonym bind_state = "Device \<times> nat \<times> UniformDescriptor list list"

definition createEntry ::
  "(string \<rightharpoonup> handle) \<Rightarrow> handle option \<Rightarrow> nat \<Rightarrow> nat \<Rightarrow> GPUBinding \<Rightarrow> bind_state
     \<Rightarrow> (error + GroupEntry) \<times> bind_state" where
  "createEntry globals buffer i j b st =
     (case st of (d, offset, uniforms0) \<Rightarrow>
      let uniforms1 = uniforms0 @ [[]] in
      case resource b of
        Buffer s \<Rightarrow>
          (let sz = getBufferSize s in
           case b_global s of
             Some g \<Rightarrow>
               if g_isCamera g
               then (Inr \<lparr>e_binding = j,
                          e_resource = BufferBinding (globals DEFAULT_CAMERA_BUFFER_ID) (Some 0) sz\<rparr>,
                     (d, offset, uniforms1))
               else (Inr \<lparr>e_binding = j,
                          e_resource = BufferBinding
                            (case g_id g of None \<Rightarrow> None | Some k \<Rightarrow> globals k) (g_byteOffset g) sz\<rparr>,
                     (d, offset, uniforms1))
           | None \<Rightarrow>
               (case push_uniform i (bufferUniform offset sz (b_type s)) uniforms1 of
                  Inl e \<Rightarrow> (Inl e, (d, offset, uniforms1))
                | Inr uniforms2 \<Rightarrow>
                    (Inr \<lparr>e_binding = j, e_resource = BufferBinding buffer (Some offset) sz\<rparr>,
                     (d, offset + sz, uniforms2))))
      | Texture t \<Rightarrow>
          (let source = loadImage (t_img t) (or_int (t_offsetX t) 0) (or_int (t_offsetY t) 0)
                          (Some (t_width t)) (Some (t_height t));
               width = t_width t - or_int (t_offsetX t) 0;
               height = t_height t - or_int (t_offsetY t) 0;
               (tex, d1) = alloc (\<lambda>h. CreateTexture h (or_str (t_dimension t) ''2d'') (t_format t)
                                        width height) d;
               d2 = emit (CopyExternalImageToTexture source (Some tex) (Some width) (Some height)) d1
           in case push_uniform i (textureUniform width height tex) uniforms1 of
                Inl e \<Rightarrow> (Inl e, (d2, offset, uniforms1))
              | Inr uniforms2 \<Rightarrow>
                  (Inr \<lparr>e_binding = j, e_resource = TextureResource tex\<rparr>, (d2, offset, uniforms2)))
      | Sampler s \<Rightarrow>
          (let (smp, d1) = alloc (\<lambda>h. CreateSampler h (samplerParams s)) d
           in case push_uniform i samplerUniform uniforms1 of
                Inl e \<Rightarrow> (Inl e, (d1, offset, uniforms1))
              | Inr uniforms2 \<Rightarrow>
                  (Inr \<lparr>e_binding = j, e_resource = SamplerResource smp\<rparr>, (d1, offset, uniforms2))))"

text \<open>The inner loop, over the bindings of group \<open>i\<close> from binding \<open>j\<close> on.\<close>

fun createEntries ::
  "(string \<rightharpoonup> handle) \<Rightarrow> handle option \<Rightarrow> nat \<Rightarrow> nat \<Rightarrow> GPUBinding list \<Rightarrow> GroupEntry list
     \<Rightarrow> bind_state \<Rightarrow> (error + GroupEntry list) \<times> bind_state" where
  "createEntries globals buffer i j [] entries st = (Inr entries, st)"
| "createEntries globals buffer i j (b # bs) entries st =
     (case createEntry globals buffer i j b st of
        (Inl e, st1) \<Rightarrow> (Inl e, st1)
      | (Inr entry, st1) \<Rightarrow> createEntries globals buffer i (Suc j) bs (entries @ [entry]) st1)"

text \<open>The outer loop, over the groups from group \<open>i\<close> on.\<close>

fun createGroups ::
  "(string \<rightharpoonup> handle) \<Rightarrow> handle option \<Rightarrow> handle list \<Rightarrow> nat \<Rightarrow> GPUBinding list list
     \<Rightarrow> handle list \<Rightarrow> bind_state \<Rightarrow> (error + handle list) \<times> bind_state" where
  "createGroups globals buffer layouts i [] bgs st = (Inr bgs, st)"
| "createGroups globals buffer layouts i (g # gs) bgs st =
     (case createEntries globals buffer i 0 g [] st of
        (Inl e, st1) \<Rightarrow> (Inl e, st1)
      | (Inr entries, (d1, offset1, uniforms1)) \<Rightarrow>
          (let (bg, d2) = alloc (\<lambda>h. CreateBindGroup h i (nth_opt layouts i) entries) d1
           in createGroups globals buffer layouts (Suc i) gs (bgs @ [bg]) (d2, offset1, uniforms1)))"

text \<open>\<^verbatim>\<open>Renderer.#createBindGroup\<close>.\<close>

definition createBindGroup ::
  "(string \<rightharpoonup> handle) \<Rightarrow> GPUBinding list list \<Rightarrow> handle list \<Rightarrow> handle option \<Rightarrow> Device
     \<Rightarrow> (error + handle list \<times> UniformDescriptor list list) \<times> Device" where
  "createBindGroup globals gs layouts buffer d =
     (if gs = [] then (Inr ([], []), d)
      else case createGroups globals buffer layouts 0 gs [] (d, 0, []) of
             (Inl e, (d1, _, _)) \<Rightarrow> (Inl e, d1)
           | (Inr bgs, (d1, _, uniforms1)) \<Rightarrow> (Inr (bgs, uniforms1), d1))"

subsection \<open>Compiling and cloning\<close>

text \<open>\<^verbatim>\<open>Renderer.createProgram\<close>. A throw inside it rejects the promise it returns; the calls
  already made on the device stay made.\<close>

definition createProgram ::
  "GPUCompilableProgram \<Rightarrow> Renderer \<Rightarrow> (error + GPUExecutable) \<times> Renderer" where
  "createProgram program r =
     (let (bindGroupLayouts, d1) = createGroupLayout (groups program) (device r);
          (uniformBuffer1, d2) = createUniformBuffer (groups program) d1
      in case createVertexBuffer (vertexDescriptor program) d2 of
           (Inl e, d3) \<Rightarrow> (Inl e, r\<lparr>device := d3\<rparr>)
         | (Inr vb, d3) \<Rightarrow>
             (case createBindGroup (globalBuffers r) (groups program) bindGroupLayouts uniformBuffer1 d3 of
                (Inl e, d4) \<Rightarrow> (Inl e, r\<lparr>device := d4\<rparr>)
              | (Inr (bindGroups1, uniforms1), d4) \<Rightarrow>
                  (let (ib, d5) = createIndexBuffer (indices program) (vb_size vb) d4;
                       (module, d6) = alloc (\<lambda>h. CreateShaderModule h (code program)) d5;
                       (layout, d7) = alloc (\<lambda>h. CreatePipelineLayout h bindGroupLayouts) d6;
                       (pipeline1, d8) = alloc (\<lambda>h. CreateRenderPipeline h
                          \<lparr>p_layout = layout,
                           p_cullMode = or_str (cullMode program) ''back'',
                           p_topology = or_str (topology program) ''triangle-list'',
                           p_vertexEntry = or_str (vertexEntryPoint program) ''vertex_main'',
                           p_fragmentEntry = or_str (fragmentEntryPoint program) ''fragment_main'',
                           p_module = module,
                           p_arrayStride = vb_stride vb,
                           p_attributes = vb_attributes vb,
                           p_format = targetFormat r\<rparr>) d7
                   in (Inr \<lparr>z = Some (int (zNext r)),
                             indexType = ib_type ib,
                             vertexCount = ib_vertexCount ib,
                             indexBuffer = ib_buffer ib,
                             pipeline = pipeline1,
                             bindGroups = bindGroups1,
                             uniforms = uniforms1,
                             uniformBuffer = uniformBuffer1,
                             vertexBuffer = vb_buffer vb\<rparr>,
                       r\<lparr>zNext := Suc (zNext r), device := d8\<rparr>))))"

text \<open>\<^verbatim>\<open>Renderer.cloneProgram\<close>: the fields of \<open>executable\<close> are copied, and four are replaced.\<close>

definition cloneProgram ::
  "GPUCompilableProgram \<Rightarrow> GPUExecutable \<Rightarrow> Renderer \<Rightarrow> (error + GPUExecutable) \<times> Renderer" where
  "cloneProgram program executable r =
     (let (bindGroupLayouts, d1) = createGroupLayout (groups program) (device r);
          (uniformBuffer1, d2) = createUniformBuffer (groups program) d1
      in case createBindGroup (globalBuffers r) (groups program) bindGroupLayouts uniformBuffer1 d2 of
           (Inl e, d3) \<Rightarrow> (Inl e, r\<lparr>device := d3\<rparr>)
         | (Inr (bindGroups1, uniforms1), d3) \<Rightarrow>
             (Inr (executable\<lparr>z := Some (int (zNext r)),
                              bindGroups := bindGroups1,
                              uniforms := uniforms1,
                              uniformBuffer := uniformBuffer1\<rparr>),
              r\<lparr>zNext := Suc (zNext r), device := d3\<rparr>))"

subsection \<open>Updating a binding\<close>

text \<open>The \<^verbatim>\<open>resource\<close> argument of \<^verbatim>\<open>updateBinding\<close>: a string, an array of numbers, or
  anything else.\<close>

datatype UpdateValue = ImageUrl string | NumberArray "rat list" | OtherValue

text \<open>
  \<^verbatim>\<open>updateBinding\<close>. Every descriptor of the table has all six keys, so both \<^verbatim>\<open>in\<close> tests
  hold whenever \<^verbatim>\<open>uniforms[group][binding]\<close> is an object, and throw a type error when it
  is not. The result is the error thrown, if any, and the device.
\<close>

definition updateBinding ::
  "GPUExecutable \<Rightarrow> nat \<Rightarrow> nat \<Rightarrow> UpdateValue \<Rightarrow> Device \<Rightarrow> error option \<times> Device" where
  "updateBinding executable grp binding v d =
     (case nth_opt (uniforms executable) grp of
        None \<Rightarrow> (Some UndefinedAccess, d)
      | Some g \<Rightarrow>
          (case nth_opt g binding of
             None \<Rightarrow> (Some UndefinedAccess, d)
           | Some u \<Rightarrow>
               (case v of
                  ImageUrl url \<Rightarrow>
                    (None, emit (CopyExternalImageToTexture
                                   (loadImage url 0 0 (u_width u) (u_height u))
                                   (u_texture u) (u_width u) (u_height u)) d)
                | NumberArray xs \<Rightarrow>
                    (case u_type u of
                       None \<Rightarrow> (Some UndefinedAccess, d)
                     | Some t \<Rightarrow>
                         (None, emit (WriteBuffer (uniformBuffer executable) (u_offset u) (Numbers t xs)) d))
                | OtherValue \<Rightarrow> (None, d))))"

subsection \<open>Global buffers\<close>

definition createGlobalBuffer :: "string \<Rightarrow> Type option \<Rightarrow> nat \<Rightarrow> Renderer \<Rightarrow> error option \<times> Renderer" where
  "createGlobalBuffer bufferId type sz r =
     (if globalBuffers r bufferId \<noteq> None then (Some (GlobalExists bufferId), r)
      else let (buffer, d1) = alloc (\<lambda>h. CreateBuffer h usage_uniform
                                 (case type of Some t \<Rightarrow> sz * BYTES_PER_ELEMENT t | None \<Rightarrow> sz))
                               (device r)
           in (None, r\<lparr>globalBuffers := (globalBuffers r)(bufferId \<mapsto> buffer), device := d1\<rparr>))"

definition writeGlobalBuffer ::
  "string \<Rightarrow> nat \<Rightarrow> Type \<Rightarrow> byte list \<Rightarrow> Renderer \<Rightarrow> error option \<times> Renderer" where
  "writeGlobalBuffer bufferId byteOffset type vals r =
     (if globalBuffers r bufferId = None then (Some (GlobalMissing bufferId), r)
      else case typedArray type vals of
             Inl e \<Rightarrow> (Some e, r)
           | Inr _ \<Rightarrow>
               (None, r\<lparr>device := emit (WriteBuffer (globalBuffers r bufferId) (Some byteOffset)
                                            (View type vals)) (device r)\<rparr>))"

definition hasDefaultCamera :: "Renderer \<Rightarrow> bool" where
  "hasDefaultCamera r \<longleftrightarrow> globalBuffers r DEFAULT_CAMERA_BUFFER_ID \<noteq> None"

section \<open>The engine and the drawer (src/rendering/gpu-engine.js, src/rendering/drawer.js)\<close>

text \<open>
  A \<^verbatim>\<open>GPUExecutable\<close> is a JavaScript object: the engine's two maps and the drawer's list
  hold references to it, \<^verbatim>\<open>update\<close> assigns its \<^verbatim>\<open>z\<close> through one of them, and
  \<^verbatim>\<open>Drawer.remove\<close> compares references. So the executables live in a store, \<open>objects\<close>,
  from addresses to values, and the maps and the list hold addresses; \<open>nextObject\<close> is the
  first address not yet given out.
\<close>

type_synonym address = nat

record GPUShaderRef =
  sr_executable :: address
  sr_shaderId :: string

record GPUExecutableRefCounter =
  rc_executable :: address
  rc_count :: int

text \<open>What \<^verbatim>\<open>#isPending\<close> holds for an id: the promise of \<^verbatim>\<open>createProgram\<close>, here its
  outcome, and the shader id its creator's continuation closes over.\<close>

record Pending =
  pd_shaderId :: string
  pd_promise :: "error + GPUExecutable"

text \<open>A call of the engine's interface; the queue \<^verbatim>\<open>#events\<close> holds such calls (method and
  arguments). The last argument of \<open>WriteGlobalBuffer\<close> is \<^verbatim>\<open>priority\<close>.\<close>

datatype Call =
    Create string GPUCompilableProgram
  | AddToScene string
  | RemoveFromScene string
  | FreeEntity string
  | Update string nat nat UpdateValue "int option"
  | CreateGlobalBuffer string "Type option" nat
  | WriteGlobalBuffer string nat Type "byte list" bool
  | CreateCamera nat nat "byte list"
  | UpdateCamera nat nat "byte list"

text \<open>
  The engine with its renderer and its drawer. \<open>elementString\<close> is the host's rendering
  of one element of a typed array as \<^verbatim>\<open>join\<close> prints it (a number, for \<^verbatim>\<open>f32\<close> a float), a
  parameter of the model; the drawer's camera table keeps the insertion order of a
  JavaScript \<^verbatim>\<open>Map\<close>.
\<close>

record Engine =
  idExecMap :: "string \<rightharpoonup> GPUShaderRef"
  isPending :: "string \<rightharpoonup> Pending"
  codeExecMap :: "string \<rightharpoonup> GPUExecutableRefCounter"
  inExecution :: bool
  events :: "Call list"
  isBusy :: bool
  renderer :: Renderer
  cameras :: "(nat \<times> (nat \<times> byte list) list) list"
  entities :: "address list"
  sceneId :: nat
  objects :: "address \<Rightarrow> GPUExecutable"
  nextObject :: address
  elementString :: "Type \<Rightarrow> byte list \<Rightarrow> string"

text \<open>A call returns, or throws and leaves the engine as it was at the throw.\<close>

datatype Outcome = Ok Engine | Threw error Engine

fun engine_of :: "Outcome \<Rightarrow> Engine" where
  "engine_of (Ok s) = s"
| "engine_of (Threw e s) = s"

subsection \<open>The shader id\<close>

text \<open>\<^verbatim>\<open>map[i] = v\<close> on a sparse array, kept as its entries in index order.\<close>

fun assign :: "nat \<Rightarrow> 'a \<Rightarrow> (nat \<times> 'a) list \<Rightarrow> (nat \<times> 'a) list" where
  "assign i v [] = [(i, v)]"
| "assign i v ((k, w) # xs) =
     (if i < k then (i, v) # (k, w) # xs
      else if i = k then (i, v) # xs
      else (k, w) # assign i v xs)"

text \<open>\<^verbatim>\<open>xs.reduce( (p,v) => p + sep + v )\<close> on a non-empty array, and the empty string
  otherwise (which is what \<^verbatim>\<open>join\<close> gives, and what the caller substitutes).\<close>

fun join :: "string \<Rightarrow> string list \<Rightarrow> string" where
  "join sep [] = []"
| "join sep (x # xs) = foldl (\<lambda>p v. p @ sep @ v) x xs"

text \<open>The \<^verbatim>\<open>forEach\<close> of \<^verbatim>\<open>#attribToString\<close>.\<close>

fun attribEntries ::
  "(Type \<Rightarrow> byte list \<Rightarrow> string) \<Rightarrow> VertexTransferable list \<Rightarrow> (nat \<times> string) list
     \<Rightarrow> error + (nat \<times> string) list" where
  "attribEntries str [] m = Inr m"
| "attribEntries str (buff # rest) m =
     (case typedArray (v_type buff) (v_values buff) of
        Inl e \<Rightarrow> Inl e
      | Inr arr \<Rightarrow>
          attribEntries str rest (assign (v_location buff) (join '','' (map (str (v_type buff)) arr)) m))"

definition attribToString ::
  "(Type \<Rightarrow> byte list \<Rightarrow> string) \<Rightarrow> VertexTransferable list \<Rightarrow> error + string" where
  "attribToString str attrib =
     (case attribEntries str attrib [] of
        Inl e \<Rightarrow> Inl e
      | Inr m \<Rightarrow> Inr (join ''/'' (map snd m)))"

definition getShaderId :: "GPUCompilableProgram \<Rightarrow> string" where
  "getShaderId program =
     code program @ or_str (cullMode program) ''back''
       @ or_str (topology program) ''triangle-list''
       @ or_str (fragmentEntryPoint program) ''fragment_main''
       @ or_str (vertexEntryPoint program) ''vertex_main''"

subsection \<open>The drawer\<close>

definition drawer_add :: "address \<Rightarrow> Engine \<Rightarrow> Engine" where
  "drawer_add a s = s\<lparr>entities := entities s @ [a]\<rparr>"

text \<open>\<^verbatim>\<open>Drawer.remove\<close> splices out the first entry that is the same object.\<close>

definition drawer_remove :: "address \<Rightarrow> Engine \<Rightarrow> Engine" where
  "drawer_remove a s = s\<lparr>entities := remove1 a (entities s)\<rparr>"

text \<open>
  \<^verbatim>\<open>Drawer.sort\<close>: a stable sort with the comparator \<^verbatim>\<open>a.z - b.z\<close>, whose \<^verbatim>\<open>NaN\<close> (a \<^verbatim>\<open>z\<close>
  that is \<^verbatim>\<open>undefined\<close>) counts as zero. With such a \<^verbatim>\<open>z\<close> in the list the comparator is
  not consistent and the host may order the list otherwise; the insertion sort below is
  the order every stable sort gives when all \<^verbatim>\<open>z\<close> are numbers.
\<close>

definition compare_z :: "(address \<Rightarrow> GPUExecutable) \<Rightarrow> address \<Rightarrow> address \<Rightarrow> int" where
  "compare_z obj a b = (case (z (obj a), z (obj b)) of (Some x, Some y) \<Rightarrow> x - y | _ \<Rightarrow> 0)"

fun insert_by :: "('a \<Rightarrow> 'a \<Rightarrow> int) \<Rightarrow> 'a \<Rightarrow> 'a list \<Rightarrow> 'a list" where
  "insert_by cmp x [] = [x]"
| "insert_by cmp x (y # ys) = (if cmp x y \<le> 0 then x # y # ys else y # insert_by cmp x ys)"

definition sort_by :: "('a \<Rightarrow> 'a \<Rightarrow> int) \<Rightarrow> 'a list \<Rightarrow> 'a list" where
  "sort_by cmp xs = foldr (insert_by cmp) xs []"

definition drawer_sort :: "Engine \<Rightarrow> Engine" where
  "drawer_sort s = s\<lparr>entities := sort_by (compare_z (objects s)) (entities s)\<rparr>"

text \<open>The body of the loop of \<^verbatim>\<open>Drawer.#draw\<close> for one entity.\<close>

definition drawCommands :: "GPUExecutable \<Rightarrow> Command list" where
  "drawCommands e =
     [SetPipeline (pipeline e)]
     @ (case vertexBuffer e of Some vb \<Rightarrow> [SetVertexBuffer 0 vb] | None \<Rightarrow> [])
     @ map2 SetBindGroup [0..<length (bindGroups e)] (bindGroups e)
     @ [SetIndexBuffer (indexBuffer e) (indexType e), DrawIndexed (vertexCount e)]"

definition draw_pass :: "Engine \<Rightarrow> Command list" where
  "draw_pass s = concat (map (\<lambda>a. drawCommands (objects s a)) (entities s))"

text \<open>\<^verbatim>\<open>cameras.get( sceneId ) || []\<close>, then its values.\<close>

definition activeCameras :: "Engine \<Rightarrow> byte list list" where
  "activeCameras s = (case map_of (cameras s) (sceneId s) of None \<Rightarrow> [] | Some cs \<Rightarrow> map snd cs)"

text \<open>\<^verbatim>\<open>m.set( k, v )\<close> on a \<^verbatim>\<open>Map\<close>: a known key keeps its place, a new one goes last.\<close>

fun map_set :: "'k \<Rightarrow> 'v \<Rightarrow> ('k \<times> 'v) list \<Rightarrow> ('k \<times> 'v) list" where
  "map_set k v [] = [(k, v)]"
| "map_set k v ((k', v') # xs) = (if k' = k then (k, v) # xs else (k', v') # map_set k v xs)"

definition addCamera :: "byte list \<Rightarrow> nat \<Rightarrow> nat \<Rightarrow> Engine \<Rightarrow> Engine" where
  "addCamera buffer scene camera s =
     (let cams = (case map_of (cameras s) scene of None \<Rightarrow> [] | Some cs \<Rightarrow> cs)
      in s\<lparr>cameras := map_set scene (map_set camera buffer cams) (cameras s)\<rparr>)"

definition drawer_updateCamera :: "byte list \<Rightarrow> nat \<Rightarrow> nat \<Rightarrow> Engine \<Rightarrow> Outcome" where
  "drawer_updateCamera buffer scene camera s =
     (case map_of (cameras s) scene of
        None \<Rightarrow> Threw (NoScene scene) s
      | Some cs \<Rightarrow>
          if map_of cs camera = None then Threw (NoCamera camera) s
          else Ok (s\<lparr>cameras := map_set scene (map_set camera buffer cs) (cameras s)\<rparr>))"

text \<open>
  The loop of \<^verbatim>\<open>Drawer.draw\<close> over the active cameras. Each turn calls the engine's
  \<^verbatim>\<open>writeGlobalBuffer\<close> with priority, which runs whatever \<^verbatim>\<open>#isBusy\<close> is, and does not
  await it: an error there rejects a promise nobody reads.
\<close>

fun draw_cameras :: "byte list list \<Rightarrow> Engine \<Rightarrow> Command list \<Rightarrow> Engine \<times> Command list" where
  "draw_cameras [] s cmds = (s, cmds)"
| "draw_cameras (cam # cams) s cmds =
     (let (_, r1) = writeGlobalBuffer DEFAULT_CAMERA_BUFFER_ID 0 f32 cam (renderer s);
          s1 = s\<lparr>renderer := r1\<rparr>
      in draw_cameras cams s1 (cmds @ draw_pass s1))"

text \<open>\<^verbatim>\<open>Drawer.draw\<close>: one pass, submitted once. Acquiring the surface and the depth target
  is left to the device.\<close>

definition drawer_draw :: "Engine \<Rightarrow> Engine" where
  "drawer_draw s =
     (let cams = activeCameras s;
          (s1, cmds) = (if length cams \<le> 0 then (s, draw_pass s) else draw_cameras cams s [])
      in s1\<lparr>renderer := (renderer s1)\<lparr>device := emit (Submit cmds) (device (renderer s1))\<rparr>\<rparr>)"

subsection \<open>Creating an entity\<close>

text \<open>
  \<^verbatim>\<open>GPUEngine.create\<close> is asynchronous. It runs up to its \<^verbatim>\<open>await\<close> when it is called
  (\<open>create_start\<close>) and from there on when the promise it awaits has settled
  (\<open>create_resume\<close>); a creation between the two is in flight. The renderer's work is
  placed at the call. On the path that compiles, the promise is stored in \<^verbatim>\<open>#isPending\<close>
  before the \<^verbatim>\<open>await\<close>; on the path that clones, nothing is stored.
\<close>

record InFlight =
  f_id :: string
  f_shaderId :: string
  f_promise :: "error + GPUExecutable"
  f_clone :: bool

datatype Started = Returned Outcome | Suspended Engine InFlight

definition enqueue :: "Call \<Rightarrow> Engine \<Rightarrow> Engine" where
  "enqueue c s = s\<lparr>events := events s @ [c]\<rparr>"

definition create_start :: "Engine \<Rightarrow> string \<Rightarrow> GPUCompilableProgram \<Rightarrow> Started" where
  "create_start s eid program =
     (if isBusy s then Returned (Ok (enqueue (Create eid program) s))
      else if idExecMap s eid \<noteq> None then Returned (Threw (IdInUse eid) s)
      else case attribToString (elementString s) (vertexDescriptor program) of
             Inl e \<Rightarrow> Returned (Threw e s)
           | Inr attribs \<Rightarrow>
               (let shaderId = getShaderId program @ attribs in
                case codeExecMap s shaderId of
                  Some ref \<Rightarrow>
                    (let (promise, r1) = cloneProgram program (objects s (rc_executable ref)) (renderer s)
                     in Suspended (s\<lparr>renderer := r1\<rparr>)
                          \<lparr>f_id = eid, f_shaderId = shaderId, f_promise = promise, f_clone = True\<rparr>)
                | None \<Rightarrow>
                    (let (promise, r1) = createProgram program (renderer s)
                     in Suspended
                          (s\<lparr>renderer := r1,
                             isPending := (isPending s)(eid \<mapsto> \<lparr>pd_shaderId = shaderId, pd_promise = promise\<rparr>)\<rparr>)
                          \<lparr>f_id = eid, f_shaderId = shaderId, f_promise = promise, f_clone = False\<rparr>)))"

text \<open>
  The rest of \<^verbatim>\<open>create\<close>. A rejected promise throws out of the \<^verbatim>\<open>await\<close>, before anything
  is registered (and before \<^verbatim>\<open>#isPending.delete\<close>). On the cloning path \<^verbatim>\<open>ref.count++\<close>
  acts on the entry read before the \<^verbatim>\<open>await\<close>, which is still the one in the map when
  nothing ran in between.
\<close>

definition create_resume :: "Engine \<Rightarrow> InFlight \<Rightarrow> Outcome" where
  "create_resume s f =
     (case f_promise f of
        Inl e \<Rightarrow> Threw e s
      | Inr executable \<Rightarrow>
          (let a = nextObject s;
               s1 = s\<lparr>objects := (objects s)(a := executable), nextObject := Suc a,
                      idExecMap := (idExecMap s)(f_id f \<mapsto> \<lparr>sr_executable = a, sr_shaderId = f_shaderId f\<rparr>)\<rparr>
           in if f_clone f
              then (case codeExecMap s1 (f_shaderId f) of
                      None \<Rightarrow> Ok s1
                    | Some ref \<Rightarrow>
                        Ok (s1\<lparr>codeExecMap := (codeExecMap s1)(f_shaderId f \<mapsto> ref\<lparr>rc_count := rc_count ref + 1\<rparr>)\<rparr>))
              else Ok (s1\<lparr>codeExecMap := (codeExecMap s1)(f_shaderId f \<mapsto> \<lparr>rc_executable = a, rc_count = 1\<rparr>),
                           isPending := (isPending s1)(f_id f := None)\<rparr>)))"

text \<open>\<^verbatim>\<open>create\<close>, awaited by its caller: nothing runs between the two halves.\<close>

definition create :: "Engine \<Rightarrow> string \<Rightarrow> GPUCompilableProgram \<Rightarrow> Outcome" where
  "create s eid program =
     (case create_start s eid program of
        Returned out \<Rightarrow> out
      | Suspended s1 f \<Rightarrow> create_resume s1 f)"

text \<open>
  The guard shared by \<^verbatim>\<open>freeEntity\<close>, \<^verbatim>\<open>addToScene\<close>, \<^verbatim>\<open>removeFromScene\<close> and \<^verbatim>\<open>update\<close>:
  \<^verbatim>\<open>if( !idExecMap.has( id ) ){ promise = isPending.get( id ); if( promise ) await promise;
  else throw ... }\<close>. Awaiting the promise of a creation in flight lets that creation run
  on first, since its continuation waits on the same promise and was queued before.
\<close>

definition awaitPending :: "Engine \<Rightarrow> string \<Rightarrow> Outcome" where
  "awaitPending s eid =
     (if idExecMap s eid \<noteq> None then Ok s
      else case isPending s eid of
             Some p \<Rightarrow>
               create_resume s \<lparr>f_id = eid, f_shaderId = pd_shaderId p, f_promise = pd_promise p, f_clone = False\<rparr>
           | None \<Rightarrow> Threw (NoEntity eid) s)"

subsection \<open>The scene\<close>

definition addToScene :: "Engine \<Rightarrow> string \<Rightarrow> Outcome" where
  "addToScene s eid =
     (if isBusy s then Ok (enqueue (AddToScene eid) s)
      else case awaitPending s eid of
             Threw e s1 \<Rightarrow> Threw e s1
           | Ok s1 \<Rightarrow>
               (case idExecMap s1 eid of
                  None \<Rightarrow> Threw UndefinedAccess s1
                | Some ref \<Rightarrow> Ok (drawer_sort (drawer_add (sr_executable ref) s1))))"

definition removeFromScene :: "Engine \<Rightarrow> string \<Rightarrow> Outcome" where
  "removeFromScene s eid =
     (if isBusy s then Ok (enqueue (RemoveFromScene eid) s)
      else case awaitPending s eid of
             Threw e s1 \<Rightarrow> Threw e s1
           | Ok s1 \<Rightarrow>
               (case idExecMap s1 eid of
                  None \<Rightarrow> Threw UndefinedAccess s1
                | Some ref \<Rightarrow> Ok (drawer_remove (sr_executable ref) s1)))"

definition update :: "Engine \<Rightarrow> string \<Rightarrow> nat \<Rightarrow> nat \<Rightarrow> UpdateValue \<Rightarrow> int option \<Rightarrow> Outcome" where
  "update s eid grp binding v z' =
     (if isBusy s then Ok (enqueue (Update eid grp binding v z') s)
      else case awaitPending s eid of
             Threw e s1 \<Rightarrow> Threw e s1
           | Ok s1 \<Rightarrow>
               (case idExecMap s1 eid of
                  None \<Rightarrow> Threw UndefinedAccess s1
                | Some ref \<Rightarrow>
                    (let a = sr_executable ref;
                         s2 = drawer_sort (s1\<lparr>objects := (objects s1)(a := (objects s1 a)\<lparr>z := z'\<rparr>)\<rparr>);
                         (err, d1) = updateBinding (objects s2 a) grp binding v (device (renderer s2));
                         s3 = s2\<lparr>renderer := (renderer s2)\<lparr>device := d1\<rparr>\<rparr>
                     in case err of None \<Rightarrow> Ok s3 | Some e \<Rightarrow> Threw e s3)))"

subsection \<open>Freeing an entity\<close>

definition destroy :: "handle \<Rightarrow> Engine \<Rightarrow> Engine" where
  "destroy h s = s\<lparr>renderer := (renderer s)\<lparr>device := emit (Destroy h) (device (renderer s))\<rparr>\<rparr>"

text \<open>The two loops over \<^verbatim>\<open>ref.executable.uniforms\<close>: the textures of the table, in order.\<close>

definition uniformTextures :: "UniformDescriptor list list \<Rightarrow> handle list" where
  "uniformTextures us = concat (map (\<lambda>g. concat (map (\<lambda>u. case u_texture u of Some t \<Rightarrow> [t] | None \<Rightarrow> []) g)) us)"

text \<open>
  \<^verbatim>\<open>GPUEngine.freeEntity\<close>. The call of \<^verbatim>\<open>removeFromScene\<close> inside it is not awaited; it
  runs at once, as the id is registered by then. \<open>ref\<close> is the shared entry of the
  entity's shader id and \<open>shared\<close> the executable that entry holds.
\<close>

definition freeEntity :: "Engine \<Rightarrow> string \<Rightarrow> Outcome" where
  "freeEntity s eid =
     (if isBusy s then Ok (enqueue (FreeEntity eid) s)
      else case awaitPending s eid of
             Threw e s1 \<Rightarrow> Threw e s1
           | Ok s1 \<Rightarrow>
               (let s2 = engine_of (removeFromScene s1 eid) in
                case idExecMap s2 eid of
                  None \<Rightarrow> Threw UndefinedAccess s2
                | Some idRef \<Rightarrow>
                    (case codeExecMap s2 (sr_shaderId idRef) of
                       None \<Rightarrow> Threw UndefinedAccess s2
                     | Some ref0 \<Rightarrow>
                         (let ref = ref0\<lparr>rc_count := rc_count ref0 - 1\<rparr>;
                              s3 = drawer_remove (sr_executable idRef)
                                     (s2\<lparr>codeExecMap := (codeExecMap s2)(sr_shaderId idRef \<mapsto> ref)\<rparr>);
                              shared = objects s3 (rc_executable ref)
                          in case uniformBuffer shared of
                               None \<Rightarrow> Threw UndefinedAccess s3
                             | Some ub \<Rightarrow>
                                 (let s4 = destroy ub s3 in
                                  if rc_count ref \<le> 0
                                  then (let s5 = destroy (indexBuffer shared) s4 in
                                        case vertexBuffer shared of
                                          None \<Rightarrow> Threw UndefinedAccess s5
                                        | Some vb \<Rightarrow>
                                            (let s6 = fold destroy (uniformTextures (uniforms shared)) (destroy vb s5);
                                                 s7 = s6\<lparr>codeExecMap := (codeExecMap s6)(sr_shaderId idRef := None)\<rparr>
                                             in Ok (s7\<lparr>idExecMap := (idExecMap s7)(eid := None)\<rparr>)))
                                  else Ok (s4\<lparr>idExecMap := (idExecMap s4)(eid := None)\<rparr>))))))"

subsection \<open>Global buffers and cameras\<close>

definition engine_createGlobalBuffer :: "Engine \<Rightarrow> string \<Rightarrow> Type option \<Rightarrow> nat \<Rightarrow> Outcome" where
  "engine_createGlobalBuffer s bufferId type sz =
     (if isBusy s then Ok (enqueue (CreateGlobalBuffer bufferId type sz) s)
      else case createGlobalBuffer bufferId type sz (renderer s) of
             (None, r1) \<Rightarrow> Ok (s\<lparr>renderer := r1\<rparr>)
           | (Some e, r1) \<Rightarrow> Threw e (s\<lparr>renderer := r1\<rparr>))"

text \<open>A queued write is stored without its \<^verbatim>\<open>priority\<close>, which is then \<^verbatim>\<open>false\<close> when the
  queue runs it.\<close>

definition engine_writeGlobalBuffer ::
  "Engine \<Rightarrow> string \<Rightarrow> nat \<Rightarrow> Type \<Rightarrow> byte list \<Rightarrow> bool \<Rightarrow> Outcome" where
  "engine_writeGlobalBuffer s bufferId byteOffset type vals priority =
     (if \<not> priority \<and> isBusy s then Ok (enqueue (WriteGlobalBuffer bufferId byteOffset type vals False) s)
      else case writeGlobalBuffer bufferId byteOffset type vals (renderer s) of
             (None, r1) \<Rightarrow> Ok (s\<lparr>renderer := r1\<rparr>)
           | (Some e, r1) \<Rightarrow> Threw e (s\<lparr>renderer := r1\<rparr>))"

definition createCamera :: "Engine \<Rightarrow> nat \<Rightarrow> nat \<Rightarrow> byte list \<Rightarrow> Outcome" where
  "createCamera s scene camera vals =
     (if isBusy s then Ok (enqueue (CreateCamera scene camera vals) s)
      else if \<not> hasDefaultCamera (renderer s)
      then (case createGlobalBuffer DEFAULT_CAMERA_BUFFER_ID (Some f32) 16 (renderer s) of
              (Some e, r1) \<Rightarrow> Threw e (s\<lparr>renderer := r1\<rparr>)
            | (None, r1) \<Rightarrow>
                (case writeGlobalBuffer DEFAULT_CAMERA_BUFFER_ID 0 f32 vals r1 of
                   (Some e, r2) \<Rightarrow> Threw e (s\<lparr>renderer := r2\<rparr>)
                 | (None, r2) \<Rightarrow> Ok (addCamera vals scene camera (s\<lparr>renderer := r2\<rparr>))))
      else Ok (addCamera vals scene camera s))"

definition updateCamera :: "Engine \<Rightarrow> nat \<Rightarrow> nat \<Rightarrow> byte list \<Rightarrow> Outcome" where
  "updateCamera s scene camera vals =
     (if isBusy s then Ok (enqueue (UpdateCamera scene camera vals) s)
      else drawer_updateCamera vals scene camera s)"

subsection \<open>The frame loop\<close>

text \<open>\<^verbatim>\<open>this[ method ]( ...args )\<close>, for a call of the interface as for an entry of the queue.\<close>

fun invoke :: "Engine \<Rightarrow> Call \<Rightarrow> Outcome" where
  "invoke s (Create eid program) = create s eid program"
| "invoke s (AddToScene eid) = addToScene s eid"
| "invoke s (RemoveFromScene eid) = removeFromScene s eid"
| "invoke s (FreeEntity eid) = freeEntity s eid"
| "invoke s (Update eid grp binding v z') = update s eid grp binding v z'"
| "invoke s (CreateGlobalBuffer bufferId type sz) = engine_createGlobalBuffer s bufferId type sz"
| "invoke s (WriteGlobalBuffer bufferId byteOffset type vals priority) =
     engine_writeGlobalBuffer s bufferId byteOffset type vals priority"
| "invoke s (CreateCamera scene camera vals) = createCamera s scene camera vals"
| "invoke s (UpdateCamera scene camera vals) = updateCamera s scene camera vals"

text \<open>Calls made one after the other, each awaited; the first throw ends the sequence.\<close>

fun invoke_all :: "Engine \<Rightarrow> Call list \<Rightarrow> Outcome" where
  "invoke_all s [] = Ok s"
| "invoke_all s (c # cs) =
     (case invoke s c of
        Threw e s1 \<Rightarrow> Threw e s1
      | Ok s1 \<Rightarrow> invoke_all s1 cs)"

text \<open>
  One run of the closure \<^verbatim>\<open>draw\<close> inside \<^verbatim>\<open>GPUEngine.draw\<close>, a tick of the loop. The loop
  over \<^verbatim>\<open>#events\<close> runs with \<^verbatim>\<open>#isBusy\<close> false, so no call it makes appends to the queue
  and it runs over the queue as it stood. The result says whether the tick reached
  \<^verbatim>\<open>requestAnimationFrame( draw )\<close>; a throw in the loop rejects the tick's promise
  before that.
\<close>

definition tick :: "Engine \<Rightarrow> Outcome \<times> bool" where
  "tick s =
     (let s1 = drawer_draw (s\<lparr>isBusy := True\<rparr>) in
      if \<not> inExecution s1 then (Ok s1, False)
      else (let s2 = s1\<lparr>isBusy := False\<rparr> in
            case invoke_all s2 (events s2) of
              Threw e s3 \<Rightarrow> (Threw e s3, False)
            | Ok s3 \<Rightarrow> (Ok s3, True)))"

text \<open>\<^verbatim>\<open>GPUEngine.draw\<close> and \<^verbatim>\<open>GPUEngine.stop\<close>.\<close>

definition draw :: "Engine \<Rightarrow> Outcome \<times> bool" where
  "draw s = (if inExecution s then (Ok s, False) else tick (s\<lparr>inExecution := True\<rparr>))"

definition stop :: "Engine \<Rightarrow> Engine" where
  "stop s = s\<lparr>inExecution := False\<rparr>"

text \<open>The engine as \<^verbatim>\<open>GPUEngine.create( canvas )\<close> leaves it.\<close>

definition emptyExecutable :: GPUExecutable where
  "emptyExecutable =
     \<lparr>z = None, indexType = uint16, vertexCount = 0, indexBuffer = 0, pipeline = 0,
      bindGroups = [], uniforms = [], uniformBuffer = None, vertexBuffer = None\<rparr>"

definition newEngine :: "(Type \<Rightarrow> byte list \<Rightarrow> string) \<Rightarrow> string \<Rightarrow> Engine" where
  "newEngine str fmt =
     \<lparr>idExecMap = Map.empty, isPending = Map.empty, codeExecMap = Map.empty,
      inExecution = False, events = [], isBusy = False,
      renderer = \<lparr>globalBuffers = Map.empty, targetFormat = fmt, zNext = 0,
                  device = \<lparr>nextHandle = 0, calls = []\<rparr>\<rparr>,
      cameras = [], entities = [], sceneId = 0,
      objects = (\<lambda>_. emptyExecutable), nextObject = 0,
      elementString = str\<rparr>"

section \<open>Definitions used to state the properties\<close>

text \<open>The combinations the derivation accepts.\<close>

definition legal_format :: "Type \<Rightarrow> nat \<Rightarrow> bool" where
  "legal_format type sz \<longleftrightarrow>
     sz \<in> {1, 2, 3, 4} \<and> \<not> (sz \<in> {1, 3} \<and> type \<in> {u8, i8, u16, i16})"

subsection \<open>An entity of the repository, and engines that hold it\<close>

text \<open>A rendering of typed-array elements for the examples: the decimal of the
  little-endian value, which is what the host prints for the unsigned integer types.\<close>

definition littleEndianString :: "Type \<Rightarrow> byte list \<Rightarrow> string" where
  "littleEndianString t bs = decimal (foldr (\<lambda>b n. unat b + 256 * n) bs 0)"

text \<open>The two bindings of the entity classes (\<^verbatim>\<open>src/entities/basic-entity-3d.js\<close>): a matrix of
  the entity's own, and the camera matrix, flagged \<^verbatim>\<open>global: { isCamera: true }\<close>.\<close>

definition localSlot :: GPUBinding where
  "localSlot = \<lparr>usage = vertex, resource = Buffer \<lparr>b_type = f32, b_size = 16, b_global = None\<rparr>\<rparr>"

definition cameraSlot :: GPUBinding where
  "cameraSlot =
     \<lparr>usage = vertex,
      resource = Buffer \<lparr>b_type = f32, b_size = 16,
                         b_global = Some \<lparr>g_id = None, g_isCamera = True, g_byteOffset = None\<rparr>\<rparr>\<rparr>"

definition entityProgram :: GPUCompilableProgram where
  "entityProgram =
     \<lparr>code = ''S'', topology = None, cullMode = None,
      vertexEntryPoint = None, fragmentEntryPoint = None,
      vertexDescriptor = [\<lparr>v_location = 0, v_type = u8, v_size = 2, v_values = [1, 2, 3, 4]\<rparr>],
      groups = [[localSlot, cameraSlot]],
      indices = []\<rparr>"

definition engine0 :: Engine where
  "engine0 = newEngine littleEndianString ''bgra8unorm''"

text \<open>The engine after \<^verbatim>\<open>create('a', entityProgram)\<close>, and after \<^verbatim>\<open>create('b', entityProgram)\<close>
  on top of it.\<close>

definition engineA :: Engine where
  "engineA = engine_of (create engine0 ''a'' entityProgram)"

definition engineAB :: Engine where
  "engineAB = engine_of (create engineA ''b'' entityProgram)"

text \<open>The engine with entity \<^verbatim>\<open>a\<close> after \<^verbatim>\<open>draw()\<close>, \<^verbatim>\<open>stop()\<close> and the tick that sees the
  cleared flag; then after \<^verbatim>\<open>addToScene('a')\<close>.\<close>

definition busyEngine :: Engine where
  "busyEngine = engine_of (fst (tick (stop (engine_of (fst (draw engineA))))))"

definition queuedEngine :: Engine where
  "queuedEngine = engine_of (addToScene busyEngine ''a'')"

text \<open>The engine with entity \<^verbatim>\<open>a\<close> while \<^verbatim>\<open>create('b', entityProgram)\<close> is in flight.\<close>

definition cloneInFlight :: Engine where
  "cloneInFlight =
     (case create_start engineA ''b'' entityProgram of
        Suspended s f \<Rightarrow> s
      | Returned out \<Rightarrow> engine_of out)"

text \<open>The engine while the first creation, \<^verbatim>\<open>create('a', entityProgram)\<close>, is in flight.\<close>

definition compileInFlight :: Engine where
  "compileInFlight =
     (case create_start engine0 ''a'' entityProgram of
        Suspended s f \<Rightarrow> s
      | Returned out \<Rightarrow> engine_of out)"

subsection \<open>The uniform buffer as the specification sizes it\<close>

text \<open>The sum of component count times byte width over the buffer slots that carry no
  \<^verbatim>\<open>global\<close> reference.\<close>

definition nonGlobalSize :: "GPUBinding list list \<Rightarrow> nat" where
  "nonGlobalSize gs =
     sum_list (map (\<lambda>b. case resource b of
                            Buffer s \<Rightarrow> if b_global s = None then b_size s * BYTES_PER_ELEMENT (b_type s) else 0
                          | _ \<Rightarrow> 0) (concat gs))"

subsection \<open>Calls that ask for the queue\<close>

text \<open>Every call of the interface but a \<^verbatim>\<open>writeGlobalBuffer\<close> with \<^verbatim>\<open>priority\<close> set, which the
  drawer issues for the cameras and which is meant to run during a frame.\<close>

definition nonPriority :: "Call \<Rightarrow> bool" where
  "nonPriority c = (case c of WriteGlobalBuffer _ _ _ _ priority \<Rightarrow> \<not> priority | _ \<Rightarrow> True)"

text \<open>The engine with entity \<^verbatim>\<open>a\<close> after \<^verbatim>\<open>draw()\<close>, its loop running.\<close>

definition runningEngine :: Engine where
  "runningEngine = engine_of (fst (draw engineA))"

subsection \<open>Two entities of one shader\<close>






text \<open>The calls that create what a shader id shares: a pipeline, a vertex buffer, an index
  buffer.\<close>

definition sharedAllocation :: "GPUCall \<Rightarrow> bool" where
  "sharedAllocation c =
     (case c of
        CreateRenderPipeline _ _ \<Rightarrow> True
      | CreateBuffer _ u _ \<Rightarrow> u = usage_vertex \<or> u = usage_index
      | _ \<Rightarrow> False)"


text \<open>A device reached from another: handles are only added, and the log is extended by
  calls that satisfy \<open>P\<close>.\<close>

definition extends :: "(GPUCall \<Rightarrow> bool) \<Rightarrow> Device \<Rightarrow> Device \<Rightarrow> bool" where
  "extends P d d' \<longleftrightarrow>
     nextHandle d \<le> nextHandle d' \<and> (\<exists>cs. calls d' = calls d @ cs \<and> (\<forall>c\<in>set cs. P c))"





text \<open>The calls that create nothing shared.\<close>

abbreviation perEntity :: "GPUCall \<Rightarrow> bool" where
  "perEntity c \<equiv> \<not> sharedAllocation c"



subsection \<open>The vertex buffer as the specification composes it\<close>

text \<open>The typed view of an attribute's values, when its byte length is a multiple of the
  element width, and the elements of that view.\<close>

definition viewable :: "VertexTransferable \<Rightarrow> bool" where
  "viewable v \<longleftrightarrow> length (v_values v) mod BYTES_PER_ELEMENT (v_type v) = 0"

definition elements :: "VertexTransferable \<Rightarrow> byte list list" where
  "elements v =
     map (\<lambda>k. take (BYTES_PER_ELEMENT (v_type v)) (drop (k * BYTES_PER_ELEMENT (v_type v)) (v_values v)))
       [0..<length (v_values v) div BYTES_PER_ELEMENT (v_type v)]"

text \<open>What one turn of the loop over \<^verbatim>\<open>i\<close> writes for one attribute.\<close>

definition written :: "VertexTransferable \<Rightarrow> nat \<Rightarrow> byte list" where
  "written v i =
     concat (map (\<lambda>k. encodeLE (v_type v) (nth_opt (elements v) (k + i * v_size v))) [0..<v_size v])"

text \<open>The \<open>n\<close>-th value of an attribute, as its little-endian bytes.\<close>

definition component :: "VertexTransferable \<Rightarrow> nat \<Rightarrow> byte list" where
  "component v n =
     take (BYTES_PER_ELEMENT (v_type v)) (drop (n * BYTES_PER_ELEMENT (v_type v)) (v_values v))"

text \<open>Two byte strings hold the same number of a component type: they are equal, or the
  type is \<^verbatim>\<open>f32\<close> and both encode a NaN.\<close>

definition sameNumber :: "Type \<Rightarrow> byte list \<Rightarrow> byte list \<Rightarrow> bool" where
  "sameNumber t bs bs' \<longleftrightarrow> bs' = bs \<or> (t = f32 \<and> isNaN32 bs \<and> isNaN32 bs')"

text \<open>The values of the interleaved buffer, in its order: for each element, for each
  attribute, for each component, one value with its component type.\<close>

definition cells :: "VertexTransferable list \<Rightarrow> nat \<Rightarrow> (Type \<times> byte list) list" where
  "cells vd len =
     concat (map (\<lambda>i. concat (map (\<lambda>v. map (\<lambda>k. (v_type v, component v (k + i * v_size v))) [0..<v_size v]) vd))
               [0..<len])"

text \<open>A byte string is a sequence of values, one after the other and nothing else: each
  value takes the width of its own bytes and holds the same number.\<close>

fun littleEndianValues :: "(Type \<times> byte list) list \<Rightarrow> byte list \<Rightarrow> bool" where
  "littleEndianValues [] data \<longleftrightarrow> data = []"
| "littleEndianValues ((t, c) # cs) data \<longleftrightarrow>
     sameNumber t c (take (length c) data) \<and> littleEndianValues cs (drop (length c) data)"

text \<open>The stride: the sum of component count times byte width, in descriptor order.\<close>

definition strideOf :: "VertexTransferable list \<Rightarrow> nat" where
  "strideOf vd = sum_list (map (\<lambda>v. v_size v * BYTES_PER_ELEMENT (v_type v)) vd)"

text \<open>The format tag of a legal combination: the bare scalar tag for count 1, the tag with
  the count appended otherwise.\<close>

definition formatTag :: "Type \<Rightarrow> nat \<Rightarrow> string" where
  "formatTag t n = (if n = 1 then TypeFormat t else TypeFormat t @ ''x'' @ decimal n)"

text \<open>The attributes of the layout, each at the running stride before it, starting from
  \<open>off\<close>; and the same in closed form.\<close>

fun attributesFrom :: "nat \<Rightarrow> VertexTransferable list \<Rightarrow> VertexAttribute list" where
  "attributesFrom off [] = []"
| "attributesFrom off (v # vs) =
     \<lparr>shaderLocation = v_location v, a_offset = off, format = formatTag (v_type v) (v_size v)\<rparr>
       # attributesFrom (off + v_size v * BYTES_PER_ELEMENT (v_type v)) vs"

definition expectedAttributes :: "VertexTransferable list \<Rightarrow> VertexAttribute list" where
  "expectedAttributes vd =
     map (\<lambda>i. \<lparr>shaderLocation = v_location (vd ! i),
                a_offset = strideOf (take i vd),
                format = formatTag (v_type (vd ! i)) (v_size (vd ! i))\<rparr>)
       [0..<length vd]"

text \<open>The vertex element count of a program: the number of values its first attribute
  holds, divided by the component count; zero without attributes.\<close>

definition vertexElementCount :: "GPUCompilableProgram \<Rightarrow> nat" where
  "vertexElementCount p =
     (case vertexDescriptor p of
        [] \<Rightarrow> 0
      | v0 # _ \<Rightarrow> (length (v_values v0) div BYTES_PER_ELEMENT (v_type v0)) div v_size v0)"

text \<open>The index width, in bits, for a vertex element count.\<close>

definition indexBits :: "nat \<Rightarrow> nat" where
  "indexBits n = (if n \<le> 65535 then 16 else 32)"

text \<open>Attribute lists for the examples: a position of three floats and a colour of four
  floats for two elements each; the same with the colour of one element only; one
  attribute of single bytes; one attribute of three floats that holds four floats.\<close>

definition goodAttributes :: "VertexTransferable list" where
  "goodAttributes =
     [\<lparr>v_location = 1, v_type = f32, v_size = 3, v_values = map of_nat [0..<24]\<rparr>,
      \<lparr>v_location = 0, v_type = f32, v_size = 4, v_values = map of_nat [100..<132]\<rparr>]"

definition shortAttributes :: "VertexTransferable list" where
  "shortAttributes =
     [\<lparr>v_location = 1, v_type = f32, v_size = 3, v_values = map of_nat [0..<24]\<rparr>,
      \<lparr>v_location = 0, v_type = f32, v_size = 4, v_values = map of_nat [100..<116]\<rparr>]"

definition byteAttributes :: "VertexTransferable list" where
  "byteAttributes = [\<lparr>v_location = 0, v_type = u8, v_size = 1, v_values = [1, 2, 3, 4]\<rparr>]"

definition raggedAttributes :: "VertexTransferable list" where
  "raggedAttributes = [\<lparr>v_location = 0, v_type = f32, v_size = 3, v_values = map of_nat [0..<16]\<rparr>]"

text \<open>One attribute of two floats: a signalling NaN (\<^verbatim>\<open>7F800001\<close>) and the number 1.\<close>

definition nanAttributes :: "VertexTransferable list" where
  "nanAttributes =
     [\<lparr>v_location = 0, v_type = f32, v_size = 1, v_values = [0x01, 0x00, 0x80, 0x7F, 0x00, 0x00, 0x80, 0x3F]\<rparr>]"

definition device0 :: Device where
  "device0 = \<lparr>nextHandle = 0, calls = []\<rparr>"

text \<open>The index list of a program whose vertex element count is \<open>n\<close>: the caller's, or
  \<open>0, ..., n - 1\<close> when the caller gives none.\<close>

definition indexList :: "GPUCompilableProgram \<Rightarrow> nat \<Rightarrow> nat list" where
  "indexList p n = (if indices p = [] then [0..<n] else indices p)"

text \<open>The entity program with three indices of the caller's, two of them above 65535.\<close>

definition wideProgram :: GPUCompilableProgram where
  "wideProgram = entityProgram\<lparr>indices := [65536, 70000, 5]\<rparr>"

text \<open>The executable and the renderer that compiling the entity program on a new engine
  gives.\<close>

definition compiledExecutable :: GPUExecutable where
  "compiledExecutable =
     (case fst (createProgram entityProgram (renderer engine0)) of
        Inr e \<Rightarrow> e
      | Inl _ \<Rightarrow> emptyExecutable)"

definition compiledRenderer :: Renderer where
  "compiledRenderer = snd (createProgram entityProgram (renderer engine0))"

subsection \<open>The draw calls of a frame\<close>

text \<open>The command list of the last call on the device, when that call is a submission.\<close>

definition submitted :: "Device \<Rightarrow> Command list" where
  "submitted d =
     (if calls d = [] then []
      else case last (calls d) of Submit cmds \<Rightarrow> cmds | _ \<Rightarrow> [])"

text \<open>The commands \<^verbatim>\<open>Drawer.draw\<close> submits for the frame it draws in a given state.\<close>

definition frame :: "Engine \<Rightarrow> Command list" where
  "frame s = submitted (device (renderer (drawer_draw s)))"

text \<open>The number of draw calls in a command list.\<close>

definition drawCalls :: "Command list \<Rightarrow> nat" where
  "drawCalls cmds = length (filter (\<lambda>c. case c of DrawIndexed _ \<Rightarrow> True | _ \<Rightarrow> False) cmds)"

text \<open>The passes over the draw list in one frame: one for each camera of the current
  scene, and one when the scene has no camera.\<close>

definition passes :: "Engine \<Rightarrow> nat" where
  "passes s = max 1 (length (activeCameras s))"

text \<open>A camera matrix of sixteen floats, and the engine with entity \<^verbatim>\<open>a\<close> after
  \<^verbatim>\<open>createCamera(0, 0, m)\<close> and \<^verbatim>\<open>createCamera(0, 1, m)\<close>: two cameras in the current scene.
  Then the same after two calls of \<^verbatim>\<open>addToScene('a')\<close>.\<close>

definition cameraMatrix :: "byte list" where
  "cameraMatrix = replicate 64 0"

definition twoCameras :: Engine where
  "twoCameras =
     engine_of (createCamera (engine_of (createCamera engineA 0 0 cameraMatrix)) 0 1 cameraMatrix)"

definition twoCamerasTwice :: Engine where
  "twoCamerasTwice = engine_of (addToScene (engine_of (addToScene twoCameras ''a'')) ''a'')"
section \<open>Properties\<close>

subsection \<open>Vertex formats\<close>

lemma decimal_small: "n < 10 \<Longrightarrow> decimal n = [digit n]"
  by (simp add: decimal.simps)

text \<open>
  C7. A component count of 1 or 3 with an 8-bit or 16-bit integer component type makes the
  vertex-format derivation fail with a type error, for every such combination. Every
  other combination with a count of 1 to 4 succeeds: count 1 gives the bare scalar tag,
  counts 2, 3 and 4 give the scalar tag followed by \<^verbatim>\<open>x\<close> and the count.
\<close>

theorem typeToFormat_spec:
  "(\<forall>type \<in> {u8, i8, u16, i16}. \<forall>sz \<in> {1, 3}.
      \<exists>e. typeToFormat type sz = Inl e \<and> class_of e = TypeError)
   \<and> (\<forall>type. legal_format type 1 \<longrightarrow> typeToFormat type 1 = Inr (TypeFormat type))
   \<and> (\<forall>type. legal_format type 2 \<longrightarrow> typeToFormat type 2 = Inr (TypeFormat type @ ''x2''))
   \<and> (\<forall>type. legal_format type 3 \<longrightarrow> typeToFormat type 3 = Inr (TypeFormat type @ ''x3''))
   \<and> (\<forall>type. legal_format type 4 \<longrightarrow> typeToFormat type 4 = Inr (TypeFormat type @ ''x4''))"
  by (auto simp: typeToFormat_def legal_format_def decimal_small digit_def)

theorem typeToFormat_spec_witness:
  "(\<exists>e. typeToFormat u16 3 = Inl e \<and> class_of e = TypeError)
   \<and> legal_format f32 1 \<and> typeToFormat f32 1 = Inr ''float32''
   \<and> legal_format u8 2 \<and> typeToFormat u8 2 = Inr ''uint8x2''
   \<and> legal_format f32 3 \<and> typeToFormat f32 3 = Inr ''float32x3''
   \<and> legal_format i16 4 \<and> typeToFormat i16 4 = Inr ''sint16x4''"
  using typeToFormat_spec by (simp add: legal_format_def)

subsection \<open>Evaluating the model\<close>

lemmas renderer_defs =
  createProgram_def cloneProgram_def createUniformBuffer_def uniformSize_def slotSize_def
  getBufferLocalSize_def getBufferSize_def alloc_def emit_def createVertexBuffer_def chainArrays_def
  elemCount_def typedArray_def upto_number_def setView_def encodeLE_def nth_opt_def
  createBindGroup_def createEntry_def push_uniform_def bufferUniform_def createIndexBuffer_def
  typeToFormat_def layoutEntry_def isTypeOfBuffer_def isTypeOfTexture_def
  Let_def decimal_small digit_def upt_rec

lemmas engine_defs =
  create_def create_start_def create_resume_def attribToString_def getShaderId_def newEngine_def
  freeEntity_def awaitPending_def removeFromScene_def addToScene_def update_def
  drawer_remove_def drawer_add_def drawer_sort_def sort_by_def compare_z_def destroy_def enqueue_def
  tick_def draw_def stop_def drawer_draw_def draw_pass_def drawCommands_def activeCameras_def

lemmas example_defs =
  engine0_def entityProgram_def localSlot_def cameraSlot_def littleEndianString_def

lemma create_a_ok: "create engine0 ''a'' entityProgram = Ok engineA"
proof -
  have "\<exists>s. create engine0 ''a'' entityProgram = Ok s"
    by (simp add: renderer_defs engine_defs example_defs)
  then show ?thesis
    by (auto simp: engineA_def)
qed

lemma create_b_ok: "create engineA ''b'' entityProgram = Ok engineAB"
proof -
  have "\<exists>s. create engineA ''b'' entityProgram = Ok s"
    by (simp add: engineA_def renderer_defs engine_defs example_defs)
  then show ?thesis
    by (auto simp: engineAB_def)
qed

subsection \<open>Freeing an entity\<close>

text \<open>
  C2 reads: every \<^verbatim>\<open>freeEntity(id)\<close> destroys the uniform buffer of that entity and never a
  buffer of another entity, and the objects shared through the shader id are destroyed
  once, by the call that brings the reference count to zero. The code destroys
  \<^verbatim>\<open>ref.executable.uniformBuffer\<close>, the uniform buffer of the executable held by the shared
  entry, which is the one of the entity created first. After \<^verbatim>\<open>create('a', p)\<close> and
  \<^verbatim>\<open>create('b', p)\<close> entity \<^verbatim>\<open>a\<close> holds uniform buffer 1 and entity \<^verbatim>\<open>b\<close> uniform buffer 9;
  \<^verbatim>\<open>freeEntity('b')\<close> returns, its only call on the device is the destruction of buffer 1,
  and \<^verbatim>\<open>a\<close> stays registered.
\<close>

theorem freeEntity_destroys_first_uniform_buffer:
  "create engine0 ''a'' entityProgram = Ok engineA
   \<and> create engineA ''b'' entityProgram = Ok engineAB
   \<and> map_option sr_executable (idExecMap engineAB ''a'') = Some 0
   \<and> map_option sr_executable (idExecMap engineAB ''b'') = Some 1
   \<and> uniformBuffer (objects engineAB 0) = Some 1
   \<and> uniformBuffer (objects engineAB 1) = Some 9
   \<and> (\<exists>s. freeEntity engineAB ''b'' = Ok s
          \<and> calls (device (renderer s)) = calls (device (renderer engineAB)) @ [Destroy 1]
          \<and> idExecMap s ''a'' \<noteq> None \<and> idExecMap s ''b'' = None)"
proof -
  have "map_option sr_executable (idExecMap engineAB ''a'') = Some 0
     \<and> map_option sr_executable (idExecMap engineAB ''b'') = Some 1
     \<and> uniformBuffer (objects engineAB 0) = Some 1
     \<and> uniformBuffer (objects engineAB 1) = Some 9"
    by (simp add: engineAB_def engineA_def renderer_defs engine_defs example_defs)
  moreover have "\<exists>s. freeEntity engineAB ''b'' = Ok s
          \<and> calls (device (renderer s)) = calls (device (renderer engineAB)) @ [Destroy 1]
          \<and> idExecMap s ''a'' \<noteq> None \<and> idExecMap s ''b'' = None"
    by (simp add: engineAB_def engineA_def renderer_defs engine_defs example_defs)
  ultimately show ?thesis
    using create_a_ok create_b_ok by blast
qed

subsection \<open>The pending queue\<close>

lemma busyEngine_state:
  "isBusy busyEngine \<and> \<not> inExecution busyEngine \<and> events busyEngine = []
   \<and> entities busyEngine = []"
  by (simp add: busyEngine_def engineA_def renderer_defs engine_defs example_defs)

text \<open>
  C3 reads: a mutating call issued while a frame is being produced returns at once without
  effect, is appended to the queue, and is executed exactly once, in order of issue,
  after the frame's submission and before the next frame; no queued call is executed
  again on a later frame. The code never empties \<^verbatim>\<open>#events\<close>: every tick runs the whole
  queue again. With the engine busy and nothing drawn, \<^verbatim>\<open>addToScene('a')\<close> is queued and
  changes nothing else; the tick started by \<^verbatim>\<open>draw()\<close> runs it, and the draw list is
  \<^verbatim>\<open>[a]\<close>; the next tick runs it again, the draw list is \<^verbatim>\<open>[a, a]\<close>, and the call is still
  in the queue.
\<close>

theorem queued_call_runs_on_every_tick:
  "isBusy busyEngine \<and> entities busyEngine = []
   \<and> addToScene busyEngine ''a'' = Ok queuedEngine
   \<and> queuedEngine = busyEngine\<lparr>events := [AddToScene ''a'']\<rparr>
   \<and> (\<exists>t1 t2. draw queuedEngine = (Ok t1, True) \<and> entities t1 = [0]
          \<and> tick t1 = (Ok t2, True) \<and> entities t2 = [0, 0]
          \<and> events t2 = [AddToScene ''a''])"
proof -
  have q: "addToScene busyEngine ''a'' = Ok (busyEngine\<lparr>events := [AddToScene ''a'']\<rparr>)"
    using busyEngine_state by (simp add: addToScene_def enqueue_def)
  then have "queuedEngine = busyEngine\<lparr>events := [AddToScene ''a'']\<rparr>"
    by (simp add: queuedEngine_def)
  moreover have "\<exists>t1 t2. draw queuedEngine = (Ok t1, True) \<and> entities t1 = [0]
          \<and> tick t1 = (Ok t2, True) \<and> entities t2 = [0, 0]
          \<and> events t2 = [AddToScene ''a'']"
    by (simp add: queuedEngine_def busyEngine_def engineA_def renderer_defs engine_defs example_defs)
  ultimately show ?thesis
    using busyEngine_state q by simp
qed

subsection \<open>The size of the uniform buffer\<close>

text \<open>
  C4 reads: the uniform buffer of an entity has the summed size of the buffer slots that
  are not flagged global, and a global slot, the camera's included, adds nothing to it
  and gets no local offset. The code counts a slot as global only when its \<^verbatim>\<open>global\<close> has
  an \<^verbatim>\<open>id\<close>, and the camera slot of the entity classes has none. For their two bindings,
  a matrix of 16 floats and the camera matrix, the slots that are not global sum to 64
  bytes and the buffer is created with 128; the bind group then binds the camera slot
  to the global buffer and gives the local slot offset 0.
\<close>

theorem camera_slot_counts_in_uniform_size:
  "nonGlobalSize [[localSlot, cameraSlot]] = 64
   \<and> createUniformBuffer [[localSlot, cameraSlot]] \<lparr>nextHandle = 0, calls = []\<rparr>
       = (Some 0, \<lparr>nextHandle = 1, calls = [CreateBuffer 0 usage_uniform 128]\<rparr>)
   \<and> fst (createBindGroup Map.empty [[localSlot, cameraSlot]] [7] (Some 0) \<lparr>nextHandle = 1, calls = []\<rparr>)
       = Inr ([1], [[bufferUniform 0 64 f32], []])"
  by (simp add: nonGlobalSize_def renderer_defs example_defs)

subsection \<open>Calls for an entity whose creation is in flight\<close>

text \<open>
  C8 reads: while \<^verbatim>\<open>create(id, descriptor)\<close> is in flight, \<^verbatim>\<open>freeEntity\<close>, \<^verbatim>\<open>addToScene\<close>,
  \<^verbatim>\<open>update\<close> and \<^verbatim>\<open>removeFromScene\<close> for that id wait for the creation and then proceed,
  on the compiling path and on the cloning path alike. The code records the promise in
  \<^verbatim>\<open>#isPending\<close> on the compiling path only. While the first creation of a shader is in
  flight, \<^verbatim>\<open>addToScene\<close> for its id waits and then adds the entity. While a creation that
  clones is in flight, its id is neither registered nor pending, and each of the four
  calls throws the unknown-id error.
\<close>

theorem calls_during_cloning_throw:
  "(\<exists>f. create_start engine0 ''a'' entityProgram = Suspended compileInFlight f \<and> \<not> f_clone f)
   \<and> idExecMap compileInFlight ''a'' = None
   \<and> (\<exists>s. addToScene compileInFlight ''a'' = Ok s \<and> entities s = [0]
          \<and> map_option sr_executable (idExecMap s ''a'') = Some 0)
   \<and> (\<exists>f. create_start engineA ''b'' entityProgram = Suspended cloneInFlight f \<and> f_clone f)
   \<and> idExecMap cloneInFlight ''b'' = None \<and> isPending cloneInFlight ''b'' = None
   \<and> \<not> isBusy cloneInFlight
   \<and> addToScene cloneInFlight ''b'' = Threw (NoEntity ''b'') cloneInFlight
   \<and> removeFromScene cloneInFlight ''b'' = Threw (NoEntity ''b'') cloneInFlight
   \<and> freeEntity cloneInFlight ''b'' = Threw (NoEntity ''b'') cloneInFlight
   \<and> update cloneInFlight ''b'' 0 0 (NumberArray [1]) None = Threw (NoEntity ''b'') cloneInFlight"
proof -
  have fresh: "(\<exists>f. create_start engine0 ''a'' entityProgram = Suspended compileInFlight f \<and> \<not> f_clone f)
     \<and> idExecMap compileInFlight ''a'' = None
     \<and> (\<exists>s. addToScene compileInFlight ''a'' = Ok s \<and> entities s = [0]
            \<and> map_option sr_executable (idExecMap s ''a'') = Some 0)"
    by (simp add: compileInFlight_def renderer_defs engine_defs example_defs)
  have clone: "\<exists>f. create_start engineA ''b'' entityProgram = Suspended cloneInFlight f \<and> f_clone f"
    by (simp add: cloneInFlight_def engineA_def renderer_defs engine_defs example_defs)
  have unknown: "idExecMap cloneInFlight ''b'' = None \<and> isPending cloneInFlight ''b'' = None
     \<and> \<not> isBusy cloneInFlight"
    by (simp add: cloneInFlight_def engineA_def renderer_defs engine_defs example_defs)
  then have "addToScene cloneInFlight ''b'' = Threw (NoEntity ''b'') cloneInFlight
     \<and> removeFromScene cloneInFlight ''b'' = Threw (NoEntity ''b'') cloneInFlight
     \<and> freeEntity cloneInFlight ''b'' = Threw (NoEntity ''b'') cloneInFlight
     \<and> update cloneInFlight ''b'' 0 0 (NumberArray [1]) None = Threw (NoEntity ''b'') cloneInFlight"
    by (simp add: addToScene_def removeFromScene_def freeEntity_def update_def awaitPending_def)
  with fresh clone unknown show ?thesis
    by blast
qed

subsection \<open>Stopping the loop\<close>

lemma draw_cameras_frame:
  "draw_cameras cams s cmds = (s1, cmds1) \<Longrightarrow> s1 = s\<lparr>renderer := renderer s1\<rparr>"
proof (induction cams arbitrary: s cmds)
  case Nil
  then show ?case by simp
next
  case (Cons cam cams)
  obtain e r1 where w: "writeGlobalBuffer DEFAULT_CAMERA_BUFFER_ID 0 f32 cam (renderer s) = (e, r1)"
    by (cases "writeGlobalBuffer DEFAULT_CAMERA_BUFFER_ID 0 f32 cam (renderer s)")
  with Cons.prems have "draw_cameras cams (s\<lparr>renderer := r1\<rparr>) (cmds @ draw_pass (s\<lparr>renderer := r1\<rparr>)) = (s1, cmds1)"
    by (simp add: Let_def)
  from Cons.IH [OF this] have "s1 = s\<lparr>renderer := renderer s1\<rparr>"
    by (metis (no_types) Engine.surjective Engine.update_convs(7))
  then show ?case .
qed

lemma drawer_draw_frame: "\<exists>r. drawer_draw s = s\<lparr>renderer := r\<rparr>"
proof (cases "length (activeCameras s) \<le> 0")
  case True
  then show ?thesis by (auto simp: drawer_draw_def Let_def)
next
  case False
  obtain s1 cmds where d: "draw_cameras (activeCameras s) s [] = (s1, cmds)"
    by (cases "draw_cameras (activeCameras s) s []")
  from draw_cameras_frame [OF d] obtain r where "s1 = s\<lparr>renderer := r\<rparr>"
    by blast
  with False d show ?thesis
    by (auto simp: drawer_draw_def Let_def)
qed

lemma busy_invoke:
  "isBusy s \<Longrightarrow> nonPriority c \<Longrightarrow> invoke s c = Ok (s\<lparr>events := events s @ [c]\<rparr>)"
  by (cases c)
     (simp_all add: nonPriority_def create_def create_start_def addToScene_def removeFromScene_def
        freeEntity_def update_def engine_createGlobalBuffer_def engine_writeGlobalBuffer_def
        createCamera_def updateCamera_def enqueue_def)

lemma busy_invoke_all:
  "isBusy s \<Longrightarrow> \<forall>c\<in>set cs. nonPriority c \<Longrightarrow> invoke_all s cs = Ok (s\<lparr>events := events s @ cs\<rparr>)"
proof (induction cs arbitrary: s)
  case Nil
  then show ?case by simp
next
  case (Cons c cs)
  then have "invoke s c = Ok (s\<lparr>events := events s @ [c]\<rparr>)"
    by (simp add: busy_invoke)
  moreover have "invoke_all (s\<lparr>events := events s @ [c]\<rparr>) cs
      = Ok (s\<lparr>events := events s @ [c]\<rparr>\<lparr>events := events (s\<lparr>events := events s @ [c]\<rparr>) @ cs\<rparr>)"
    using Cons.prems by (intro Cons.IH) simp_all
  ultimately show ?case by simp
qed

lemma restart_runs_queue:
  "\<not> inExecution q \<Longrightarrow>
     fst (draw q) = invoke_all ((drawer_draw (q\<lparr>inExecution := True, isBusy := True\<rparr>))\<lparr>isBusy := False\<rparr>) (events q)"
proof -
  assume a: "\<not> inExecution q"
  obtain r where d: "drawer_draw (q\<lparr>inExecution := True, isBusy := True\<rparr>) = q\<lparr>inExecution := True, isBusy := True\<rparr>\<lparr>renderer := r\<rparr>"
    using drawer_draw_frame by blast
  show ?thesis using a d
    by (simp add: draw_def tick_def Let_def split: Outcome.splits)
qed

text \<open>
  C9. When \<^verbatim>\<open>stop()\<close> has cleared the running flag, the next tick draws its frame and
  returns without rescheduling and with \<^verbatim>\<open>#isBusy\<close> still set. From then on every mutating
  call (every call of the interface but a \<^verbatim>\<open>writeGlobalBuffer\<close> with priority) returns
  normally, is appended to the queue in order of issue and changes nothing else. Nothing
  of the queue runs until \<^verbatim>\<open>draw()\<close> is called again; the tick it then starts clears
  \<^verbatim>\<open>#isBusy\<close> after its frame and runs the queue in order.
\<close>

theorem stop_leaves_engine_busy:
  "\<exists>s1. tick (stop s) = (Ok s1, False) \<and> isBusy s1 \<and> \<not> inExecution s1
        \<and> (\<forall>cs. (\<forall>c\<in>set cs. nonPriority c) \<longrightarrow>
              invoke_all s1 cs = Ok (s1\<lparr>events := events s1 @ cs\<rparr>)
              \<and> fst (draw (s1\<lparr>events := events s1 @ cs\<rparr>))
                  = invoke_all
                      ((drawer_draw (s1\<lparr>events := events s1 @ cs, inExecution := True, isBusy := True\<rparr>))
                         \<lparr>isBusy := False\<rparr>)
                      (events s1 @ cs))"
proof -
  obtain r where d: "drawer_draw (stop s\<lparr>isBusy := True\<rparr>) = stop s\<lparr>isBusy := True\<rparr>\<lparr>renderer := r\<rparr>"
    using drawer_draw_frame by blast
  let ?s1 = "stop s\<lparr>isBusy := True\<rparr>\<lparr>renderer := r\<rparr>"
  have t: "tick (stop s) = (Ok ?s1, False)"
    using d by (simp add: tick_def stop_def Let_def)
  have b: "isBusy ?s1" "\<not> inExecution ?s1"
    by (simp_all add: stop_def)
  have "invoke_all ?s1 cs = Ok (?s1\<lparr>events := events ?s1 @ cs\<rparr>)
        \<and> fst (draw (?s1\<lparr>events := events ?s1 @ cs\<rparr>))
            = invoke_all
                ((drawer_draw (?s1\<lparr>events := events ?s1 @ cs, inExecution := True, isBusy := True\<rparr>))
                   \<lparr>isBusy := False\<rparr>)
                (events ?s1 @ cs)"
    if "\<forall>c\<in>set cs. nonPriority c" for cs
    using that busy_invoke_all [of ?s1 cs] restart_runs_queue [of "?s1\<lparr>events := events ?s1 @ cs\<rparr>"] b
    by simp
  with t b show ?thesis
    by blast
qed

theorem stop_leaves_engine_busy_witness:
  "\<exists>s1. tick (stop runningEngine) = (Ok s1, False) \<and> isBusy s1
        \<and> (\<forall>c\<in>set [AddToScene ''a'', Update ''a'' 0 0 (NumberArray [1]) None, FreeEntity ''a'']. nonPriority c)
        \<and> invoke_all s1 [AddToScene ''a'', Update ''a'' 0 0 (NumberArray [1]) None, FreeEntity ''a'']
            = Ok (s1\<lparr>events := events s1 @ [AddToScene ''a'', Update ''a'' 0 0 (NumberArray [1]) None, FreeEntity ''a'']\<rparr>)"
proof -
  have n: "\<forall>c\<in>set [AddToScene ''a'', Update ''a'' 0 0 (NumberArray [1]) None, FreeEntity ''a'']. nonPriority c"
    by (simp add: nonPriority_def)
  from stop_leaves_engine_busy [of runningEngine] obtain s1 where
    "tick (stop runningEngine) = (Ok s1, False)" "isBusy s1"
    "\<forall>cs. (\<forall>c\<in>set cs. nonPriority c) \<longrightarrow> invoke_all s1 cs = Ok (s1\<lparr>events := events s1 @ cs\<rparr>)"
    by blast
  with n show ?thesis
    by blast
qed

subsection \<open>Adding an entity twice\<close>

lemma mset_insert_by: "mset (insert_by cmp x ys) = add_mset x (mset ys)"
  by (induction ys) simp_all

lemma mset_sort_by: "mset (sort_by cmp xs) = mset xs"
  by (induction xs) (simp_all add: sort_by_def mset_insert_by)

lemma count_list_sort_by: "count_list (sort_by cmp xs) a = count_list xs a"
  by (metis count_mset mset_sort_by)

lemma length_sort_by: "length (sort_by cmp xs) = length xs"
  by (metis mset_sort_by size_mset)

lemma count_list_remove1: "a \<in> set xs \<Longrightarrow> Suc (count_list (remove1 a xs) a) = count_list xs a"
  by (induction xs) auto

lemma addToScene_idle:
  "\<not> isBusy s \<Longrightarrow> idExecMap s eid = Some ref \<Longrightarrow>
     addToScene s eid = Ok (s\<lparr>entities := sort_by (compare_z (objects s)) (entities s @ [sr_executable ref])\<rparr>)"
  by (simp add: addToScene_def awaitPending_def drawer_sort_def drawer_add_def)

lemma removeFromScene_idle:
  "\<not> isBusy s \<Longrightarrow> idExecMap s eid = Some ref \<Longrightarrow>
     removeFromScene s eid = Ok (s\<lparr>entities := remove1 (sr_executable ref) (entities s)\<rparr>)"
  by (simp add: removeFromScene_def awaitPending_def drawer_remove_def)

lemma drawCalls_append: "drawCalls (xs @ ys) = drawCalls xs + drawCalls ys"
  by (simp add: drawCalls_def)

lemma drawCalls_bindGroups: "drawCalls (map2 SetBindGroup ns hs) = 0"
  by (simp add: drawCalls_def filter_empty_conv split_beta)

lemma drawCalls_drawCommands: "drawCalls (drawCommands e) = 1"
proof -
  have "drawCalls (case vertexBuffer e of Some vb \<Rightarrow> [SetVertexBuffer 0 vb] | None \<Rightarrow> []) = 0"
    by (simp add: drawCalls_def split: option.splits)
  then show ?thesis
    unfolding drawCommands_def drawCalls_append drawCalls_bindGroups
    by (simp add: drawCalls_def)
qed

lemma drawCalls_concat: "drawCalls (concat xss) = sum_list (map drawCalls xss)"
  by (induction xss) (simp_all add: drawCalls_append, simp add: drawCalls_def)

lemma drawCalls_pass: "drawCalls (draw_pass s) = length (entities s)"
  by (simp add: draw_pass_def drawCalls_concat o_def drawCalls_drawCommands sum_list_triv)

lemma draw_pass_renderer: "draw_pass (s\<lparr>renderer := r\<rparr>) = draw_pass s"
  by (simp add: draw_pass_def)

lemma draw_cameras_cmds:
  "draw_cameras cams s cmds = (s1, cmds1) \<Longrightarrow> cmds1 = cmds @ concat (replicate (length cams) (draw_pass s))"
proof (induction cams arbitrary: s cmds)
  case Nil
  then show ?case by simp
next
  case (Cons cam cams)
  obtain e r1 where w: "writeGlobalBuffer DEFAULT_CAMERA_BUFFER_ID 0 f32 cam (renderer s) = (e, r1)"
    by (cases "writeGlobalBuffer DEFAULT_CAMERA_BUFFER_ID 0 f32 cam (renderer s)")
  with Cons.prems have "draw_cameras cams (s\<lparr>renderer := r1\<rparr>) (cmds @ draw_pass (s\<lparr>renderer := r1\<rparr>)) = (s1, cmds1)"
    by (simp add: Let_def)
  from Cons.IH [OF this] show ?case
    by (simp add: draw_pass_renderer)
qed

lemma frame_passes: "frame s = concat (replicate (passes s) (draw_pass s))"
proof (cases "length (activeCameras s) \<le> 0")
  case True
  then show ?thesis
    by (simp add: frame_def drawer_draw_def submitted_def emit_def passes_def)
next
  case False
  obtain s1 cmds where d: "draw_cameras (activeCameras s) s [] = (s1, cmds)"
    by (cases "draw_cameras (activeCameras s) s []")
  from draw_cameras_cmds [OF d] have "cmds = concat (replicate (length (activeCameras s)) (draw_pass s))"
    by simp
  moreover have "passes s = length (activeCameras s)"
    using False by (cases "activeCameras s") (simp_all add: passes_def)
  ultimately show ?thesis
    using False d by (simp add: frame_def drawer_draw_def submitted_def emit_def)
qed

lemma drawCalls_replicate: "drawCalls (concat (replicate k xs)) = k * drawCalls xs"
  by (induction k) (simp_all add: drawCalls_append, simp add: drawCalls_def)

lemma drawCalls_frame: "drawCalls (frame s) = passes s * length (entities s)"
  by (simp add: frame_passes drawCalls_replicate drawCalls_pass)

lemma mset_concat_map: "mset (concat (map f xs)) = (\<Sum>x\<in>#mset xs. mset (f x))"
  by (induction xs) simp_all

lemma mset_concat_replicate: "mset (concat (replicate k xs)) = repeat_mset k (mset xs)"
  by (induction k) simp_all

lemma mset_frame:
  "mset (frame s) = repeat_mset (passes s) (\<Sum>a\<in>#mset (entities s). mset (drawCommands (objects s a)))"
  by (simp add: frame_passes mset_concat_replicate draw_pass_def mset_concat_map)

text \<open>
  C10, amended. \<^verbatim>\<open>addToScene\<close> does not look for the entity in the draw list. For a
  registered id and an idle engine, two calls of \<^verbatim>\<open>addToScene(id)\<close> succeed and leave the
  entity's executable in the draw list two times more than before. A frame makes one pass
  over the draw list for each camera of the current scene, and one pass when the scene
  has no camera, and every pass issues the commands of every entry: the frame drawn
  after the two calls is that many passes over the new list; it holds the commands of
  the frame drawn before them and, twice for each pass, the commands of this executable,
  and so has two draw calls more for each pass (two more with at most one camera). One
  \<^verbatim>\<open>removeFromScene(id)\<close> after that removes the first entry that is this executable and
  leaves one more than at the start, and the frame with the commands of the executable
  once more for each pass.
\<close>

theorem addToScene_twice_remove_once:
  assumes idle: "\<not> isBusy s" and reg: "idExecMap s eid = Some ref"
  shows "\<exists>s1 s2 s3. addToScene s eid = Ok s1 \<and> addToScene s1 eid = Ok s2
       \<and> count_list (entities s2) (sr_executable ref) = count_list (entities s) (sr_executable ref) + 2
       \<and> frame s2 = concat (replicate (passes s) (concat (map (\<lambda>a. drawCommands (objects s a)) (entities s2))))
       \<and> mset (frame s2)
             = mset (frame s) + repeat_mset (2 * passes s) (mset (drawCommands (objects s (sr_executable ref))))
       \<and> drawCalls (frame s2) = drawCalls (frame s) + 2 * passes s
       \<and> removeFromScene s2 eid = Ok s3
       \<and> entities s3 = remove1 (sr_executable ref) (entities s2)
       \<and> count_list (entities s3) (sr_executable ref) = count_list (entities s) (sr_executable ref) + 1
       \<and> mset (frame s3)
             = mset (frame s) + repeat_mset (passes s) (mset (drawCommands (objects s (sr_executable ref))))
       \<and> drawCalls (frame s3) = drawCalls (frame s) + passes s"
proof -
  let ?a = "sr_executable ref"
  let ?cmp = "compare_z (objects s)"
  let ?s1 = "s\<lparr>entities := sort_by ?cmp (entities s @ [?a])\<rparr>"
  let ?s2 = "?s1\<lparr>entities := sort_by ?cmp (entities ?s1 @ [?a])\<rparr>"
  let ?s3 = "?s2\<lparr>entities := remove1 ?a (entities ?s2)\<rparr>"
  have 1: "addToScene s eid = Ok ?s1"
    using idle reg by (rule addToScene_idle)
  have 2: "addToScene ?s1 eid = Ok ?s2"
    using idle reg addToScene_idle [of ?s1 eid ref] by simp
  have 3: "removeFromScene ?s2 eid = Ok ?s3"
    using idle reg removeFromScene_idle [of ?s2 eid ref] by simp
  have c2: "count_list (entities ?s2) ?a = count_list (entities s) ?a + 2"
    by (simp add: count_list_sort_by)
  have "?a \<in> set (entities ?s2)"
    using c2 by (metis add_is_0 count_notin zero_neq_numeral)
  then have in2: "?a \<in> set (sort_by ?cmp (sort_by ?cmp (entities s @ [?a]) @ [?a]))"
    by simp
  then have "Suc (count_list (entities ?s3) ?a) = count_list (entities ?s2) ?a"
    using count_list_remove1 [of ?a "entities ?s2"] by simp
  with c2 have c3: "count_list (entities ?s3) ?a = count_list (entities s) ?a + 1"
    by simp
  have p: "passes ?s2 = passes s" "passes ?s3 = passes s"
    by (simp_all add: passes_def activeCameras_def)
  have l2: "length (entities ?s2) = length (entities s) + 2"
    by (simp add: length_sort_by)
  have "Suc (length (remove1 ?a (entities ?s2))) = length (entities ?s2)"
    using in2 length_pos_if_in_set [OF in2] by (simp add: length_remove1)
  with l2 have l3: "length (entities ?s3) = length (entities s) + 1"
    by simp
  have f2: "frame ?s2 = concat (replicate (passes s) (concat (map (\<lambda>a. drawCommands (objects s a)) (entities ?s2))))"
    unfolding frame_passes p by (simp add: draw_pass_def)
  have d2: "drawCalls (frame ?s2) = drawCalls (frame s) + 2 * passes s"
    unfolding drawCalls_frame p l2 by (simp add: algebra_simps)
  have d3: "drawCalls (frame ?s3) = drawCalls (frame s) + passes s"
    unfolding drawCalls_frame p l3 by (simp add: algebra_simps)
  have e2: "mset (entities ?s2) = mset (entities s) + {#?a, ?a#}"
    by (simp add: mset_sort_by)
  have e3: "mset (entities ?s3) = mset (entities s) + {#?a#}"
    by (simp add: mset_sort_by)
  have m2: "mset (frame ?s2) = mset (frame s) + repeat_mset (2 * passes s) (mset (drawCommands (objects s ?a)))"
    unfolding mset_frame p e2 by (simp add: mult_2 repeat_mset_distrib repeat_mset_distrib2)
  have m3: "mset (frame ?s3) = mset (frame s) + repeat_mset (passes s) (mset (drawCommands (objects s ?a)))"
    unfolding mset_frame p e3 by (simp add: repeat_mset_distrib2)
  show ?thesis
    using 1 2 3 c2 c3 f2 d2 d3 m2 m3 by (intro exI [of _ ?s1] exI [of _ ?s2] exI [of _ ?s3]) simp
qed


theorem addToScene_twice_remove_once_witness:
  "\<not> isBusy engineA
   \<and> idExecMap engineA ''a'' = Some \<lparr>sr_executable = 0, sr_shaderId = ''Sbacktriangle-listfragment_mainvertex_main1,2,3,4''\<rparr>
   \<and> passes engineA = 1 \<and> drawCalls (frame engineA) = 0
   \<and> (\<exists>s1 s2 s3. addToScene engineA ''a'' = Ok s1 \<and> addToScene s1 ''a'' = Ok s2
          \<and> count_list (entities s2) 0 = 2
          \<and> drawCalls (frame s2) = 2
          \<and> removeFromScene s2 ''a'' = Ok s3
          \<and> entities s3 = remove1 0 (entities s2)
          \<and> count_list (entities s3) 0 = 1
          \<and> drawCalls (frame s3) = 1)"
proof -
  have h: "\<not> isBusy engineA"
    "idExecMap engineA ''a'' = Some \<lparr>sr_executable = 0, sr_shaderId = ''Sbacktriangle-listfragment_mainvertex_main1,2,3,4''\<rparr>"
    "entities engineA = []" "cameras engineA = []"
    by (simp_all add: engineA_def renderer_defs engine_defs example_defs)
  have f: "passes engineA = 1" "drawCalls (frame engineA) = 0"
    unfolding drawCalls_frame by (simp_all add: passes_def activeCameras_def h)
  from addToScene_twice_remove_once [OF h(1) h(2)] h f show ?thesis
    by (auto simp: numeral_2_eq_2)
qed

text \<open>
  C10 as it is stated fails for a scene with more than one camera: \<^verbatim>\<open>Drawer.draw\<close> runs
  over the draw list once for each camera. With two cameras in the current scene and
  the entity added twice to an empty draw list, the frame holds four draw calls, not
  two.
\<close>

theorem addToScene_twice_counterexample:
  "\<not> isBusy twoCameras \<and> map_option sr_executable (idExecMap twoCameras ''a'') = Some 0
   \<and> entities twoCameras = [] \<and> length (activeCameras twoCameras) = 2
   \<and> addToScene twoCameras ''a'' = Ok (engine_of (addToScene twoCameras ''a''))
   \<and> addToScene (engine_of (addToScene twoCameras ''a'')) ''a'' = Ok twoCamerasTwice
   \<and> entities twoCamerasTwice = [0, 0]
   \<and> drawCalls (frame twoCamerasTwice) = 4"
proof -
  have h: "\<not> isBusy twoCameras" "map_option sr_executable (idExecMap twoCameras ''a'') = Some 0"
    "entities twoCameras = []" "length (activeCameras twoCameras) = 2"
    by (simp_all add: twoCameras_def cameraMatrix_def engineA_def createCamera_def addCamera_def
          createGlobalBuffer_def writeGlobalBuffer_def hasDefaultCamera_def DEFAULT_CAMERA_BUFFER_ID_def
          renderer_defs engine_defs example_defs)
  from h(2) obtain ref where ref: "idExecMap twoCameras ''a'' = Some ref" "sr_executable ref = 0"
    by auto
  have a1: "addToScene twoCameras ''a'' = Ok (engine_of (addToScene twoCameras ''a''))"
    using addToScene_idle [OF h(1) ref(1)] by simp
  have idle1: "\<not> isBusy (engine_of (addToScene twoCameras ''a''))"
    and ref1: "idExecMap (engine_of (addToScene twoCameras ''a'')) ''a'' = Some ref"
    using addToScene_idle [OF h(1) ref(1)] h(1) ref(1) by simp_all
  have a2: "addToScene (engine_of (addToScene twoCameras ''a'')) ''a'' = Ok twoCamerasTwice"
    using addToScene_idle [OF idle1 ref1] by (simp add: twoCamerasTwice_def)
  have e: "entities twoCamerasTwice = [0, 0]"
    unfolding twoCamerasTwice_def
    using addToScene_idle [OF idle1 ref1] addToScene_idle [OF h(1) ref(1)] ref(2) h(3)
    by (simp add: sort_by_def)
  have "passes twoCamerasTwice = 2"
    unfolding twoCamerasTwice_def
    using addToScene_idle [OF idle1 ref1] addToScene_idle [OF h(1) ref(1)] h(4)
    by (simp add: passes_def activeCameras_def)
  then have "drawCalls (frame twoCamerasTwice) = 4"
    unfolding drawCalls_frame e by simp
  with h a1 a2 e show ?thesis
    by simp
qed
subsection \<open>Two entities of one shader\<close>

lemma extends_refl: "extends P d d"
  by (simp add: extends_def)

lemma extends_trans: "extends P d d1 \<Longrightarrow> extends P d1 d2 \<Longrightarrow> extends P d d2"
  by (fastforce simp: extends_def)

lemma extends_weaken: "extends P d d' \<Longrightarrow> (\<And>c. P c \<Longrightarrow> Q c) \<Longrightarrow> extends Q d d'"
  by (fastforce simp: extends_def)

lemma extends_handle: "extends P d d' \<Longrightarrow> nextHandle d \<le> nextHandle d'"
  by (simp add: extends_def)

lemma extends_alloc: "alloc c d = (h, d') \<Longrightarrow> P (c (nextHandle d)) \<Longrightarrow> extends P d d'"
  by (auto simp: alloc_def extends_def)

lemma alloc_handle: "alloc c d = (h, d') \<Longrightarrow> h = nextHandle d \<and> nextHandle d' = Suc h"
  by (auto simp: alloc_def)

lemma extends_emit: "P c \<Longrightarrow> extends P d (emit c d)"
  by (auto simp: emit_def extends_def)

lemma createGroupLayout_extends:
  "createGroupLayout gs d = (hs, d') \<Longrightarrow> extends perEntity d d'"
proof (induction gs arbitrary: d hs d')
  case Nil
  then show ?case by (simp add: extends_refl)
next
  case (Cons g gs)
  obtain h d1 where a: "alloc (\<lambda>h. CreateBindGroupLayout h (map2 layoutEntry [0..<length g] g)) d = (h, d1)"
    by (cases "alloc (\<lambda>h. CreateBindGroupLayout h (map2 layoutEntry [0..<length g] g)) d")
  obtain hs1 d2 where r: "createGroupLayout gs d1 = (hs1, d2)"
    by (cases "createGroupLayout gs d1")
  from Cons.prems a r have "d' = d2" by simp
  moreover have "extends perEntity d d1"
    using a by (rule extends_alloc) (simp add: sharedAllocation_def)
  ultimately show ?case
    using Cons.IH [OF r] extends_trans by blast
qed

lemma createUniformBuffer_extends:
  "createUniformBuffer gs d = (u, d') \<Longrightarrow>
     extends perEntity d d' \<and> (gs \<noteq> [] \<longrightarrow> u = Some (nextHandle d) \<and> nextHandle d < nextHandle d')"
  by (auto simp: createUniformBuffer_def alloc_def extends_def sharedAllocation_def Let_def split: if_splits)

lemma createEntry_extends:
  "createEntry globals buffer i j b (d, off, us) = (r, (d', off', us')) \<Longrightarrow> extends perEntity d d'"
  by (auto simp: createEntry_def Let_def alloc_def emit_def extends_def sharedAllocation_def
           split: Resource.splits option.splits if_splits sum.splits)

lemma createEntries_extends:
  "createEntries globals buffer i j bs entries (d, off, us) = (r, (d', off', us')) \<Longrightarrow> extends perEntity d d'"
proof (induction bs arbitrary: j entries d off us)
  case Nil
  then show ?case by (simp add: extends_refl)
next
  case (Cons b bs)
  obtain r1 d1 off1 us1 where e: "createEntry globals buffer i j b (d, off, us) = (r1, (d1, off1, us1))"
    by (metis prod_cases3)
  have 1: "extends perEntity d d1"
    using e by (rule createEntry_extends)
  show ?case
  proof (cases r1)
    case (Inl err)
    with Cons.prems e 1 show ?thesis by simp
  next
    case (Inr entry)
    with Cons.prems e have "createEntries globals buffer i (Suc j) bs (entries @ [entry]) (d1, off1, us1) = (r, (d', off', us'))"
      by simp
    from Cons.IH [OF this] 1 show ?thesis
      using extends_trans by blast
  qed
qed

lemma createGroups_extends:
  "createGroups globals buffer layouts i gs bgs (d, off, us) = (Inr bgs', (d', off', us')) \<Longrightarrow>
     extends perEntity d d'
     \<and> (\<exists>new. bgs' = bgs @ new \<and> length new = length gs
           \<and> (\<forall>h\<in>set new. nextHandle d \<le> h \<and> h < nextHandle d'))"
proof (induction gs arbitrary: i bgs d off us)
  case Nil
  then show ?case by (simp add: extends_refl)
next
  case (Cons g gs)
  obtain r1 d1 off1 us1 where e: "createEntries globals buffer i 0 g [] (d, off, us) = (r1, (d1, off1, us1))"
    by (metis prod_cases3)
  have 1: "extends perEntity d d1"
    using e by (rule createEntries_extends)
  show ?case
  proof (cases r1)
    case (Inl err)
    with Cons.prems e show ?thesis by simp
  next
    case (Inr entries)
    obtain bg d2 where a: "alloc (\<lambda>h. CreateBindGroup h i (nth_opt layouts i) entries) d1 = (bg, d2)"
      by (cases "alloc (\<lambda>h. CreateBindGroup h i (nth_opt layouts i) entries) d1")
    have 2: "extends perEntity d1 d2"
      using a by (rule extends_alloc) (simp add: sharedAllocation_def)
    have h: "bg = nextHandle d1" "nextHandle d2 = Suc bg"
      using alloc_handle [OF a] by simp_all
    from Cons.prems e Inr a
    have "createGroups globals buffer layouts (Suc i) gs (bgs @ [bg]) (d2, off1, us1) = (Inr bgs', (d', off', us'))"
      by simp
    from Cons.IH [OF this] obtain new where
      3: "extends perEntity d2 d'" and n: "bgs' = (bgs @ [bg]) @ new" "length new = length gs"
        "\<forall>h\<in>set new. nextHandle d2 \<le> h \<and> h < nextHandle d'"
      by blast
    have "extends perEntity d d'"
      using 1 2 3 extends_trans by blast
    moreover have "bgs' = bgs @ (bg # new)" "length (bg # new) = length (g # gs)"
      using n by simp_all
    moreover have "\<forall>h\<in>set (bg # new). nextHandle d \<le> h \<and> h < nextHandle d'"
      using n(3) h extends_handle [OF 1] extends_handle [OF 3] by auto
    ultimately show ?thesis by blast
  qed
qed

lemma createBindGroup_extends:
  assumes "createBindGroup globals gs layouts buffer d = (Inr (bgs, us), d')"
  shows "extends perEntity d d' \<and> length bgs = length gs
         \<and> (\<forall>h\<in>set bgs. nextHandle d \<le> h \<and> h < nextHandle d')"
proof (cases "gs = []")
  case True
  with assms show ?thesis by (simp add: createBindGroup_def extends_refl)
next
  case False
  obtain r1 d1 off1 us1 where g: "createGroups globals buffer layouts 0 gs [] (d, 0, []) = (r1, (d1, off1, us1))"
    by (metis prod_cases3)
  with assms False have "r1 = Inr bgs" "d1 = d'"
    by (auto simp: createBindGroup_def split: sum.splits)
  with g createGroups_extends [of globals buffer layouts 0 gs "[]" d 0 "[]" bgs d' off1 us1]
  show ?thesis by auto
qed


lemma createVertexBuffer_extends:
  "createVertexBuffer vd d = (r, d') \<Longrightarrow> extends (\<lambda>_. True) d d'"
  by (auto simp: createVertexBuffer_def Let_def alloc_def emit_def extends_def
           split: list.splits sum.splits prod.splits)


lemma createProgram_steps:
  assumes "createProgram p r = (Inr e, r')"
  obtains ls d1 u d2 vb d3 bgs us d4 ib d5 where
    "createGroupLayout (groups p) (device r) = (ls, d1)"
    "createUniformBuffer (groups p) d1 = (u, d2)"
    "createVertexBuffer (vertexDescriptor p) d2 = (Inr vb, d3)"
    "createBindGroup (globalBuffers r) (groups p) ls u d3 = (Inr (bgs, us), d4)"
    "createIndexBuffer (indices p) (vb_size vb) d4 = (ib, d5)"
    "bindGroups e = bgs" "uniformBuffer e = u" "uniforms e = us"
    "indexType e = ib_type ib" "vertexCount e = ib_vertexCount ib" "indexBuffer e = ib_buffer ib"
    "vertexBuffer e = vb_buffer vb" "pipeline e = Suc (Suc (nextHandle d5))"
    "nextHandle (device r') = Suc (Suc (Suc (nextHandle d5)))"
    "\<exists>pd. calls (device r') = calls d5 @ [CreateShaderModule (nextHandle d5) (code p),
        CreatePipelineLayout (Suc (nextHandle d5)) ls,
        CreateRenderPipeline (Suc (Suc (nextHandle d5))) pd]"
proof -
  obtain ls d1 where l: "createGroupLayout (groups p) (device r) = (ls, d1)"
    by (cases "createGroupLayout (groups p) (device r)")
  obtain u d2 where b: "createUniformBuffer (groups p) d1 = (u, d2)"
    by (cases "createUniformBuffer (groups p) d1")
  obtain vres d3 where v: "createVertexBuffer (vertexDescriptor p) d2 = (vres, d3)"
    by (cases "createVertexBuffer (vertexDescriptor p) d2")
  obtain res d4 where g: "createBindGroup (globalBuffers r) (groups p) ls u d3 = (res, d4)"
    by (cases "createBindGroup (globalBuffers r) (groups p) ls u d3")
  obtain vb where vres: "vres = Inr vb"
  proof (cases vres)
    case (Inl x)
    with assms l b v show ?thesis by (simp add: createProgram_def)
  next
    case (Inr vb)
    with that show ?thesis by simp
  qed
  obtain bgs us where res: "res = Inr (bgs, us)"
  proof (cases res)
    case (Inl x)
    with assms l b v g vres show ?thesis by (simp add: createProgram_def)
  next
    case (Inr x)
    with that show ?thesis by (cases x) simp
  qed
  obtain ib d5 where i: "createIndexBuffer (indices p) (vb_size vb) d4 = (ib, d5)"
    by (cases "createIndexBuffer (indices p) (vb_size vb) d4")
  from assms l b v g i vres res
  have *: "(Inr e, r') = (Inr \<lparr>z = Some (int (zNext r)),
                             indexType = ib_type ib,
                             vertexCount = ib_vertexCount ib,
                             indexBuffer = ib_buffer ib,
                             pipeline = Suc (Suc (nextHandle d5)),
                             bindGroups = bgs,
                             uniforms = us,
                             uniformBuffer = u,
                             vertexBuffer = vb_buffer vb\<rparr>,
       r\<lparr>zNext := Suc (zNext r),
          device := d5\<lparr>nextHandle := Suc (Suc (Suc (nextHandle d5))),
                      calls := calls d5 @ [CreateShaderModule (nextHandle d5) (code p),
        CreatePipelineLayout (Suc (nextHandle d5)) ls,
        CreateRenderPipeline (Suc (Suc (nextHandle d5)))
                          \<lparr>p_layout = Suc (nextHandle d5),
                           p_cullMode = or_str (cullMode p) ''back'',
                           p_topology = or_str (topology p) ''triangle-list'',
                           p_vertexEntry = or_str (vertexEntryPoint p) ''vertex_main'',
                           p_fragmentEntry = or_str (fragmentEntryPoint p) ''fragment_main'',
                           p_module = nextHandle d5,
                           p_arrayStride = vb_stride vb,
                           p_attributes = vb_attributes vb,
                           p_format = targetFormat r\<rparr>]\<rparr>\<rparr>)"
    by (simp add: createProgram_def Let_def alloc_def)
  then have e: "e = \<lparr>z = Some (int (zNext r)),
                             indexType = ib_type ib,
                             vertexCount = ib_vertexCount ib,
                             indexBuffer = ib_buffer ib,
                             pipeline = Suc (Suc (nextHandle d5)),
                             bindGroups = bgs,
                             uniforms = us,
                             uniformBuffer = u,
                             vertexBuffer = vb_buffer vb\<rparr>"
    and r': "device r' = d5\<lparr>nextHandle := Suc (Suc (Suc (nextHandle d5))),
                      calls := calls d5 @ [CreateShaderModule (nextHandle d5) (code p),
        CreatePipelineLayout (Suc (nextHandle d5)) ls,
        CreateRenderPipeline (Suc (Suc (nextHandle d5)))
                          \<lparr>p_layout = Suc (nextHandle d5),
                           p_cullMode = or_str (cullMode p) ''back'',
                           p_topology = or_str (topology p) ''triangle-list'',
                           p_vertexEntry = or_str (vertexEntryPoint p) ''vertex_main'',
                           p_fragmentEntry = or_str (fragmentEntryPoint p) ''fragment_main'',
                           p_module = nextHandle d5,
                           p_arrayStride = vb_stride vb,
                           p_attributes = vb_attributes vb,
                           p_format = targetFormat r\<rparr>]\<rparr>"
    by simp_all
  show ?thesis
    by (rule that [OF l b v [unfolded vres] g [unfolded res] i]) (simp_all add: e r')
qed













subsection \<open>Composing the vertex buffer\<close>

lemma BYTES_PER_ELEMENT_pos: "0 < BYTES_PER_ELEMENT t"
  by (cases t) simp_all

lemma typedArray_elements:
  "typedArray (v_type v) (v_values v) = (if viewable v then Inr (elements v) else Inl ViewLength)"
  by (simp add: typedArray_def viewable_def elements_def)

lemma nth_opt_elements:
  "nth_opt (elements v) n =
     (if n < length (v_values v) div BYTES_PER_ELEMENT (v_type v) then Some (component v n) else None)"
  by (simp add: nth_opt_def elements_def component_def)

lemma length_component:
  assumes "n < length (v_values v) div BYTES_PER_ELEMENT (v_type v)"
  shows "length (component v n) = BYTES_PER_ELEMENT (v_type v)"
proof -
  let ?c = "BYTES_PER_ELEMENT (v_type v)"
  from assms have "Suc n \<le> length (v_values v) div ?c" by simp
  then have "Suc n * ?c \<le> length (v_values v)"
    by (metis BYTES_PER_ELEMENT_pos less_eq_div_iff_mult_less_eq)
  then show ?thesis
    by (simp add: component_def)
qed

lemma length_encodeLE:
  "length (encodeLE (v_type v) (nth_opt (elements v) n)) = BYTES_PER_ELEMENT (v_type v)"
  by (simp add: encodeLE_def nth_opt_elements length_component)

lemma setView_append:
  "setView (length w) bs (w @ replicate m 0) =
     (if length bs \<le> m then Inr ((w @ bs) @ replicate (m - length bs) 0) else Inl ViewBounds)"
  by (auto simp: setView_def)

lemma chainComponents_char:
  assumes "\<forall>k\<in>set ks. length (encodeLE t (nth_opt arr (k + base))) = c" and "c = BYTES_PER_ELEMENT t"
  shows "chainComponents t arr base ks (length w, w @ replicate m 0) =
     (if length ks * c \<le> m
      then Inr (length w + length ks * c,
                (w @ concat (map (\<lambda>k. encodeLE t (nth_opt arr (k + base))) ks)) @ replicate (m - length ks * c) 0)
      else Inl ViewBounds)"
  using assms
proof (induction ks arbitrary: w m)
  case Nil
  then show ?case by simp
next
  case (Cons k ks)
  let ?e = "encodeLE t (nth_opt arr (k + base))"
  have len: "length ?e = c" using Cons.prems by simp
  show ?case
  proof (cases "c \<le> m")
    case False
    then have "\<not> (length (k # ks) * c \<le> m)"
      by (simp add: not_le)
    with False len show ?thesis
      by (simp add: setView_append)
  next
    case True
    have ih: "chainComponents t arr base ks (length (w @ ?e), (w @ ?e) @ replicate (m - c) 0) =
     (if length ks * c \<le> m - c
      then Inr (length (w @ ?e) + length ks * c,
                ((w @ ?e) @ concat (map (\<lambda>k. encodeLE t (nth_opt arr (k + base))) ks)) @ replicate (m - c - length ks * c) 0)
      else Inl ViewBounds)"
      using Cons.prems by (intro Cons.IH) simp_all
    have "(length ks * c \<le> m - c) = (length (k # ks) * c \<le> m)"
      using True by auto
    moreover have "m - c - length ks * c = m - length (k # ks) * c"
      by simp
    ultimately show ?thesis
      using True len ih Cons.prems(2) by (simp add: setView_append add.assoc)
  qed
qed

lemma length_concat_const:
  "\<forall>x\<in>set xs. length (f x) = c \<Longrightarrow> length (concat (map f xs)) = length xs * c"
  by (induction xs) simp_all

lemma length_written: "length (written b i) = v_size b * BYTES_PER_ELEMENT (v_type b)"
  unfolding written_def
  by (subst length_concat_const [where c = "BYTES_PER_ELEMENT (v_type b)"]) (simp_all add: length_encodeLE)

lemma chainBuffers_step:
  assumes "(if length arrays \<le> j
            then (case typedArray (v_type b) (v_values b) of
                    Inl e \<Rightarrow> Inl e
                  | Inr a \<Rightarrow> Inr (arrays @ [a]))
            else Inr arrays) = Inr arrays'"
    and "nth_opt arrays' j = Some arr"
    and "chainComponents (v_type b) arr (i * v_size b) [0..<v_size b] (offset, buf) = R"
  shows "chainBuffers i j (b # bs) (arrays, offset, buf) =
     (case R of Inl e \<Rightarrow> Inl e | Inr (offset', buf') \<Rightarrow> chainBuffers i (Suc j) bs (arrays', offset', buf'))"
  by (simp only: chainBuffers.simps assms sum.case option.case)

lemma chainBuffers_char:
  assumes "\<forall>b\<in>set bs. viewable b" and "arrays = map elements (take n (pre @ bs))" and "length pre \<le> n"
  shows "chainBuffers i (length pre) bs (arrays, length w, w @ replicate m 0) =
     (if strideOf bs \<le> m
      then Inr (map elements (pre @ bs), length w + strideOf bs,
                (w @ concat (map (\<lambda>b. written b i) bs)) @ replicate (m - strideOf bs) 0)
      else Inl ViewBounds)"
  using assms
proof (induction bs arbitrary: pre n arrays w m)
  case Nil
  then show ?case by (simp add: strideOf_def)
next
  case (Cons b bs)
  let ?j = "length pre" and ?c = "BYTES_PER_ELEMENT (v_type b)"
  let ?all = "pre @ b # bs"
  let ?n' = "max n (Suc ?j)"
  let ?arrays' = "map elements (take ?n' ?all)"
  have vb: "viewable b" using Cons.prems(1) by simp
  have step1: "(if length arrays \<le> ?j
            then (case typedArray (v_type b) (v_values b) of
                    Inl e \<Rightarrow> Inl e
                  | Inr a \<Rightarrow> Inr (arrays @ [a]))
            else Inr arrays) = Inr ?arrays'"
  proof (cases "n \<le> ?j")
    case True
    with Cons.prems(3) have n: "n = ?j" by simp
    then have "arrays = map elements pre" using Cons.prems(2) by simp
    then show ?thesis using n vb by (simp add: typedArray_elements)
  next
    case False
    then have la: "\<not> length arrays \<le> ?j" using Cons.prems(2) by simp
    have "max n (Suc ?j) = n" using False by simp
    then have e: "?arrays' = arrays" using Cons.prems(2) by (simp only:)
    show ?thesis unfolding e using la by (simp only: if_False)
  qed
  have nth: "nth_opt ?arrays' ?j = Some (elements b)"
    by (simp add: nth_opt_def nth_append)
  have comp: "chainComponents (v_type b) (elements b) (i * v_size b) [0..<v_size b] (length w, w @ replicate m 0) =
     (if v_size b * ?c \<le> m
      then Inr (length w + v_size b * ?c, (w @ written b i) @ replicate (m - v_size b * ?c) 0)
      else Inl ViewBounds)"
    using chainComponents_char [of "[0..<v_size b]" "v_type b" "elements b" "i * v_size b" ?c w m]
    by (simp add: length_encodeLE written_def)
  note step = chainBuffers_step [OF step1 nth comp, of bs]
  show ?case
  proof (cases "v_size b * ?c \<le> m")
    case False
    then have "\<not> strideOf (b # bs) \<le> m" by (simp add: strideOf_def)
    with step False show ?thesis by simp
  next
    case True
    have ih: "chainBuffers i (length (pre @ [b])) bs
        (?arrays', length (w @ written b i), (w @ written b i) @ replicate (m - v_size b * ?c) 0) =
       (if strideOf bs \<le> m - v_size b * ?c
        then Inr (map elements ((pre @ [b]) @ bs), length (w @ written b i) + strideOf bs,
                  ((w @ written b i) @ concat (map (\<lambda>b. written b i) bs))
                    @ replicate (m - v_size b * ?c - strideOf bs) 0)
        else Inl ViewBounds)"
      by (rule Cons.IH [where n = ?n']) (use Cons.prems in simp_all)
    have s: "strideOf (b # bs) = v_size b * ?c + strideOf bs"
      by (simp add: strideOf_def)
    have "(strideOf bs \<le> m - v_size b * ?c) = (strideOf (b # bs) \<le> m)"
      using True s by auto
    moreover have "m - v_size b * ?c - strideOf bs = m - strideOf (b # bs)"
      using s by simp
    ultimately show ?thesis
      using step True ih s by (simp add: length_written add.assoc)
  qed
qed

lemma chainBuffers_unviewable:
  assumes "\<exists>b\<in>set bs. \<not> viewable b" and "length arrays = j"
  shows "\<exists>e. chainBuffers i j bs (arrays, offset, buf) = Inl e"
  using assms
proof (induction bs arbitrary: arrays j offset buf)
  case Nil
  then show ?case by simp
next
  case (Cons b bs)
  show ?case
  proof (cases "viewable b")
    case False
    with Cons.prems(2) show ?thesis by (simp add: typedArray_elements)
  next
    case True
    with Cons.prems(1) have rest: "\<exists>b\<in>set bs. \<not> viewable b" by simp
    have step1: "(if length arrays \<le> j
            then (case typedArray (v_type b) (v_values b) of
                    Inl e \<Rightarrow> Inl e
                  | Inr a \<Rightarrow> Inr (arrays @ [a]))
            else Inr arrays) = Inr (arrays @ [elements b])"
      using True Cons.prems(2) by (simp add: typedArray_elements)
    have nth: "nth_opt (arrays @ [elements b]) j = Some (elements b)"
      using Cons.prems(2) by (auto simp: nth_opt_def)
    note step = chainBuffers_step [OF step1 nth refl, where i = i and offset = offset and buf = buf and bs = bs]
    show ?thesis
    proof (cases "chainComponents (v_type b) (elements b) (i * v_size b) [0..<v_size b] (offset, buf)")
      case (Inl e)
      with step show ?thesis by simp
    next
      case (Inr st)
      obtain offset' buf' where st: "st = (offset', buf')" by (cases st)
      have "\<exists>e. chainBuffers i (Suc j) bs (arrays @ [elements b], offset', buf') = Inl e"
        using rest Cons.prems(2) by (intro Cons.IH) simp_all
      with step Inr st show ?thesis by simp
    qed
  qed
qed

lemma length_row: "length (concat (map (\<lambda>b. written b i) bs)) = strideOf bs"
  by (induction bs) (simp_all add: strideOf_def length_written)

lemma chainElements_char:
  assumes "\<forall>b\<in>set bs. viewable b" and "arrays = map elements (take n bs)"
  shows "chainElements is bs (arrays, length w, w @ replicate m 0) =
     (if length is * strideOf bs \<le> m
      then Inr ((if is = [] then arrays else map elements bs), length w + length is * strideOf bs,
                (w @ concat (map (\<lambda>i. concat (map (\<lambda>b. written b i) bs)) is))
                  @ replicate (m - length is * strideOf bs) 0)
      else Inl ViewBounds)"
  using assms(2)
proof (induction "is" arbitrary: arrays n w m)
  case Nil
  then show ?case by simp
next
  case (Cons i "is")
  let ?S = "strideOf bs"
  let ?row = "concat (map (\<lambda>b. written b i) bs)"
  have first: "chainBuffers i 0 bs (arrays, length w, w @ replicate m 0) =
     (if ?S \<le> m
      then Inr (map elements bs, length w + ?S, (w @ ?row) @ replicate (m - ?S) 0)
      else Inl ViewBounds)"
    using chainBuffers_char [of bs arrays n "[]" i w m] assms(1) Cons.prems by simp
  show ?case
  proof (cases "?S \<le> m")
    case False
    then have "\<not> length (i # is) * ?S \<le> m" by simp
    with first False show ?thesis by simp
  next
    case True
    have ih: "chainElements is bs (map elements bs, length (w @ ?row), (w @ ?row) @ replicate (m - ?S) 0) =
       (if length is * ?S \<le> m - ?S
        then Inr ((if is = [] then map elements bs else map elements bs), length (w @ ?row) + length is * ?S,
                  ((w @ ?row) @ concat (map (\<lambda>i. concat (map (\<lambda>b. written b i) bs)) is))
                    @ replicate (m - ?S - length is * ?S) 0)
        else Inl ViewBounds)"
      by (rule Cons.IH [where n = "length bs"]) simp
    have "(length is * ?S \<le> m - ?S) = (length (i # is) * ?S \<le> m)"
      using True by auto
    moreover have "m - ?S - length is * ?S = m - length (i # is) * ?S"
      by simp
    ultimately show ?thesis
      using first True ih by (simp add: length_row add.assoc)
  qed
qed

lemma chainElements_unviewable:
  assumes "\<exists>b\<in>set bs. \<not> viewable b" and "is \<noteq> []"
  shows "\<exists>e. chainElements is bs ([], offset, buf) = Inl e"
proof -
  from assms(2) obtain i rest where "is = i # rest" by (cases "is") auto
  moreover from chainBuffers_unviewable [OF assms(1), of "[]" 0 i offset buf]
  obtain e where "chainBuffers i 0 bs ([], offset, buf) = Inl e" by auto
  ultimately show ?thesis by simp
qed

lemma chainArrays_char:
  assumes "\<forall>b\<in>set (b0 # rest). viewable b"
  shows "chainArrays (b0 # rest) bytes =
     (if nat \<lceil>elemCount b0\<rceil> * strideOf (b0 # rest) \<le> nat \<lfloor>bytes\<rfloor>
      then Inr (concat (map (\<lambda>i. concat (map (\<lambda>b. written b i) (b0 # rest))) [0..<nat \<lceil>elemCount b0\<rceil>])
                @ replicate (nat \<lfloor>bytes\<rfloor> - nat \<lceil>elemCount b0\<rceil> * strideOf (b0 # rest)) 0)
      else Inl ViewBounds)"
  using chainElements_char [OF assms, of "[]" 0 "[0..<nat \<lceil>elemCount b0\<rceil>]" "[]" "nat \<lfloor>bytes\<rfloor>"]
  by (simp add: chainArrays_def upto_number_def)

lemma chainArrays_unviewable:
  assumes "\<exists>b\<in>set (b0 # rest). \<not> viewable b" and "0 < elemCount b0"
  shows "\<exists>e. chainArrays (b0 # rest) bytes = Inl e"
proof -
  have "[0..<nat \<lceil>elemCount b0\<rceil>] \<noteq> []"
    using assms(2) by simp
  from chainElements_unviewable [OF assms(1) this, of 0 "replicate (nat \<lfloor>bytes\<rfloor>) 0"]
  show ?thesis
    by (auto simp: chainArrays_def upto_number_def)
qed

lemma typeToFormat_legal: "legal_format t n \<Longrightarrow> typeToFormat t n = Inr (formatTag t n)"
  by (auto simp: legal_format_def typeToFormat_def formatTag_def)

lemma vertexAttributes_ok:
  "\<forall>v\<in>set vs. elemCount v = len \<and> legal_format (v_type v) (v_size v) \<Longrightarrow>
     vertexAttributes len vs off attrs = Inr (attrs @ attributesFrom off vs, off + strideOf vs)"
  by (induction vs arbitrary: off attrs) (simp_all add: strideOf_def typeToFormat_legal add.assoc)

lemma attributesFrom_closed:
  "attributesFrom off vs =
     map (\<lambda>i. \<lparr>shaderLocation = v_location (vs ! i),
                a_offset = off + strideOf (take i vs),
                format = formatTag (v_type (vs ! i)) (v_size (vs ! i))\<rparr>)
       [0..<length vs]"
proof (induction vs arbitrary: off)
  case Nil
  then show ?case by simp
next
  case (Cons v vs)
  have u: "[0..<Suc (length vs)] = 0 # map Suc [0..<length vs]"
    by (simp add: upt_conv_Cons map_Suc_upt del: upt_Suc)
  show ?case
    by (simp add: u Cons.IH strideOf_def add.assoc o_def del: upt_Suc)
qed

lemma attributesFrom_expected: "attributesFrom 0 vd = expectedAttributes vd"
  by (simp add: attributesFrom_closed expectedAttributes_def)

lemma vertexAttributes_mismatch:
  assumes "\<forall>u\<in>set pre. elemCount u = len \<and> legal_format (v_type u) (v_size u)" and "elemCount v \<noteq> len"
  shows "vertexAttributes len (pre @ v # post) off attrs
           = Inl (SizeMismatch ''[object ArrayBuffer]'' (len * of_nat (v_size v)))"
  using assms
  by (induction pre arbitrary: off attrs) (simp_all add: typeToFormat_legal)

lemma vertexAttributes_stride:
  "vertexAttributes len vs off attrs = Inr (a, st) \<Longrightarrow> st = off + strideOf vs"
proof (induction vs arbitrary: off attrs)
  case Nil
  then show ?case by (simp add: strideOf_def)
next
  case (Cons v vs)
  from Cons.prems obtain f where
    "vertexAttributes len vs (off + v_size v * BYTES_PER_ELEMENT (v_type v))
       (attrs @ [\<lparr>shaderLocation = v_location v, a_offset = off, format = f\<rparr>]) = Inr (a, st)"
    by (auto split: if_splits sum.splits)
  from Cons.IH [OF this] show ?case
    by (simp add: strideOf_def)
qed

lemma elemCount_whole:
  assumes "0 < v_size v"
  shows "(elemCount v = of_nat len) = (length (v_values v) = len * v_size v * BYTES_PER_ELEMENT (v_type v))"
proof -
  let ?c = "BYTES_PER_ELEMENT (v_type v)"
  have c: "0 < ?c" by (rule BYTES_PER_ELEMENT_pos)
  have "(elemCount v = of_nat len) = ((of_nat (length (v_values v)) :: rat) = of_nat len * of_nat (v_size v) * of_nat ?c)"
    using assms c by (simp add: elemCount_def field_simps)
  also have "\<dots> = (length (v_values v) = len * v_size v * ?c)"
    by (metis of_nat_eq_iff of_nat_mult)
  finally show ?thesis .
qed

lemma written_whole:
  assumes "length (v_values v) = len * v_size v * BYTES_PER_ELEMENT (v_type v)" and "i < len"
  shows "written v i
           = concat (map (\<lambda>k. encodeLE (v_type v) (Some (component v (k + i * v_size v)))) [0..<v_size v])"
proof -
  let ?c = "BYTES_PER_ELEMENT (v_type v)"
  have c: "0 < ?c" by (rule BYTES_PER_ELEMENT_pos)
  have d: "length (v_values v) div ?c = len * v_size v"
    using assms(1) c by simp
  have "k + i * v_size v < len * v_size v" if "k < v_size v" for k
  proof -
    have "k + i * v_size v < Suc i * v_size v" using that by simp
    also have "\<dots> \<le> len * v_size v" using assms(2) by (intro mult_le_mono1) simp
    finally show ?thesis .
  qed
  then have "encodeLE (v_type v) (nth_opt (elements v) (k + i * v_size v))
      = encodeLE (v_type v) (Some (component v (k + i * v_size v)))"
    if "k \<in> set [0..<v_size v]" for k
    using that d by (simp add: nth_opt_elements)
  then show ?thesis
    unfolding written_def by (metis (mono_tags, lifting) map_eq_conv)
qed

lemma concat_map_concat_map:
  "concat (map f (concat (map g xs))) = concat (map (\<lambda>x. concat (map f (g x))) xs)"
  by (induction xs) simp_all

lemma rows_cells:
  assumes "\<forall>v\<in>set vd. length (v_values v) = len * v_size v * BYTES_PER_ELEMENT (v_type v)"
  shows "concat (map (\<lambda>i. concat (map (\<lambda>b. written b i) vd)) [0..<len])
           = concat (map (\<lambda>(t, c). encodeLE t (Some c)) (cells vd len))"
proof -
  let ?enc = "\<lambda>(t, c). encodeLE t (Some c)"
  let ?cell = "\<lambda>i v. map (\<lambda>k. (v_type v, component v (k + i * v_size v))) [0..<v_size v]"
  have w: "written b i = concat (map ?enc (?cell i b))" if "b \<in> set vd" "i < len" for b i
    using written_whole [of b len i] assms that by (simp add: o_def)
  have row: "concat (map (\<lambda>b. written b i) vd) = concat (map (\<lambda>b. concat (map ?enc (?cell i b))) vd)"
    if "i < len" for i
    using w that by (intro arg_cong [where f = concat] map_cong refl) simp
  have "map (\<lambda>i. concat (map (\<lambda>b. written b i) vd)) [0..<len]
      = map (\<lambda>i. concat (map (\<lambda>b. concat (map ?enc (?cell i b))) vd)) [0..<len]"
    using row by (intro map_cong refl) simp
  then show ?thesis
    unfolding cells_def concat_map_concat_map by (simp only:)
qed

lemma isNaN32_quiet: "isNaN32 bs \<Longrightarrow> isNaN32 (bs[2 := (bs ! 2) OR 0x40])"
proof -
  assume n: "isNaN32 bs"
  let ?b = "bs ! 2"
  have 1: "(?b OR 0x40) AND 0x80 = (?b AND 0x80) OR (0x40 AND 0x80)"
    by (rule bit.conj_disj_distrib2)
  have 2: "(?b OR 0x40) AND 0x7F = (?b AND 0x7F) OR (0x40 AND 0x7F)"
    by (rule bit.conj_disj_distrib2)
  have 3: "(0x40 :: byte) AND 0x80 = 0" "(0x40 :: byte) AND 0x7F = 0x40"
    by simp_all
  from n have "(?b OR 0x40) AND 0x80 = 0x80"
    unfolding 1 3 by (simp add: isNaN32_def)
  moreover have "(?b OR 0x40) AND 0x7F \<noteq> 0"
    unfolding 2 3 by (simp add: or_eq_0_iff)
  ultimately show ?thesis
    using n by (simp add: isNaN32_def)
qed

lemma sameNumber_encodeLE: "sameNumber t c (encodeLE t (Some c))"
  by (simp add: sameNumber_def encodeLE_def isNaN32_quiet)

lemma length_encodeLE_Some: "length (encodeLE t (Some c)) = length c"
  by (simp add: encodeLE_def)

lemma littleEndianValues_encodeLE:
  "littleEndianValues cs (concat (map (\<lambda>(t, c). encodeLE t (Some c)) cs))"
  by (induction cs) (auto simp: sameNumber_encodeLE length_encodeLE_Some)
lemma length_rows:
  "length (concat (map (\<lambda>i. concat (map (\<lambda>b. written b i) vd)) [0..<len])) = len * strideOf vd"
  using length_concat_const [of "[0..<len]" "\<lambda>i. concat (map (\<lambda>b. written b i) vd)" "strideOf vd"]
  by (simp add: length_row)

text \<open>
  C5, amended. For a non-empty list of vertex attributes whose component type and count
  are a legal combination each: if every attribute holds the same whole number \<open>len\<close>
  of elements, composition succeeds, the attributes of the layout carry the locations
  and format tags in descriptor order, each at the offset of the running stride before
  it, the stride is the sum of component count times byte width, a vertex buffer of
  stride times \<open>len\<close> bytes is created, and the bytes written to it at offset 0 are that
  many and are the values one after the other, element by element, attribute by
  attribute, component by component, each the bytes the attribute holds for it or, for
  a NaN of type \<^verbatim>\<open>f32\<close>, the bytes of a NaN; if an attribute's element count differs from
  that of the first attribute, and no attribute before it does so, composition fails,
  before a buffer is created, with the size-mismatch error whose message gives
  \<^verbatim>\<open>[object ArrayBuffer]\<close> for the values and the length expected of that attribute.
\<close>

theorem createVertexBuffer_interleaves:
  assumes ne: "vd \<noteq> []" and legal: "\<forall>v\<in>set vd. legal_format (v_type v) (v_size v)"
  shows "((\<forall>v\<in>set vd. elemCount v = of_nat len) \<longrightarrow>
            (\<exists>data.
               createVertexBuffer vd d =
                 (Inr \<lparr>vb_buffer = Some (nextHandle d), vb_attributes = expectedAttributes vd,
                       vb_stride = strideOf vd, vb_size = of_nat len\<rparr>,
                  d\<lparr>nextHandle := Suc (nextHandle d),
                     calls := calls d @ [CreateBuffer (nextHandle d) usage_vertex (strideOf vd * len),
                                         WriteBytes (nextHandle d) 0 data]\<rparr>)
             \<and> length data = strideOf vd * len
             \<and> littleEndianValues (cells vd len) data))
       \<and> (\<forall>pre v post.
             vd = pre @ v # post \<and> (\<forall>u\<in>set pre. elemCount u = elemCount (hd vd))
               \<and> elemCount v \<noteq> elemCount (hd vd) \<longrightarrow>
             createVertexBuffer vd d
               = (Inl (SizeMismatch ''[object ArrayBuffer]'' (elemCount (hd vd) * of_nat (v_size v))), d))"
proof -
  from ne obtain v0 rest where vd: "vd = v0 # rest"
    by (cases vd) auto
  have part1: "\<exists>data.
               createVertexBuffer vd d =
                 (Inr \<lparr>vb_buffer = Some (nextHandle d), vb_attributes = expectedAttributes vd,
                       vb_stride = strideOf vd, vb_size = of_nat len\<rparr>,
                  d\<lparr>nextHandle := Suc (nextHandle d),
                     calls := calls d @ [CreateBuffer (nextHandle d) usage_vertex (strideOf vd * len),
                                         WriteBytes (nextHandle d) 0 data]\<rparr>)
             \<and> length data = strideOf vd * len
             \<and> littleEndianValues (cells vd len) data"
    if all: "\<forall>v\<in>set vd. elemCount v = of_nat len"
  proof -
    let ?data = "concat (map (\<lambda>(t, c). encodeLE t (Some c)) (cells vd len))"
    have pos: "\<forall>v\<in>set vd. 0 < v_size v"
      using legal by (auto simp: legal_format_def)
    have whole: "\<forall>v\<in>set vd. length (v_values v) = len * v_size v * BYTES_PER_ELEMENT (v_type v)"
      using all pos elemCount_whole by blast
    then have view: "\<forall>b\<in>set (v0 # rest). viewable b"
      by (simp add: viewable_def vd)
    have len0: "elemCount v0 = of_nat len"
      using all vd by simp
    have va: "vertexAttributes (of_nat len) vd 0 [] = Inr (expectedAttributes vd, strideOf vd)"
      using vertexAttributes_ok [of vd "of_nat len" 0 "[]"] all legal
      by (simp add: attributesFrom_expected)
    have bytes: "nat \<lfloor>(of_nat (strideOf vd) :: rat) * of_nat len\<rfloor> = strideOf vd * len"
      by (metis floor_of_nat nat_int of_nat_mult)
    have rows: "concat (map (\<lambda>i. concat (map (\<lambda>b. written b i) vd)) [0..<len]) = ?data"
      using whole by (rule rows_cells)
    note cc = chainArrays_char [OF view, of "of_nat (strideOf vd) * of_nat len"]
    have N: "nat \<lceil>elemCount v0\<rceil> = len"
      by (simp add: len0)
    have B: "nat \<lfloor>(of_nat (strideOf vd) :: rat) * of_nat len\<rfloor> = strideOf (v0 # rest) * len"
      using bytes vd by simp
    have "chainArrays (v0 # rest) (of_nat (strideOf vd) * of_nat len)
        = Inr (concat (map (\<lambda>i. concat (map (\<lambda>b. written b i) (v0 # rest))) [0..<len]))"
      unfolding cc N B by (simp add: mult.commute)
    then have ca: "chainArrays vd (of_nat (strideOf vd) * of_nat len) = Inr ?data"
      using rows vd by simp
    have "length ?data = strideOf vd * len"
      using length_rows [of vd len] rows by (simp add: mult.commute)
    moreover have "littleEndianValues (cells vd len) ?data"
      by (rule littleEndianValues_encodeLE)
    moreover have "createVertexBuffer vd d =
              (Inr \<lparr>vb_buffer = Some (nextHandle d), vb_attributes = expectedAttributes vd,
                    vb_stride = strideOf vd, vb_size = of_nat len\<rparr>,
               d\<lparr>nextHandle := Suc (nextHandle d),
                  calls := calls d @ [CreateBuffer (nextHandle d) usage_vertex (strideOf vd * len),
                                      WriteBytes (nextHandle d) 0 ?data]\<rparr>)"
      using va ca bytes len0 unfolding createVertexBuffer_def vd
      by (simp add: Let_def alloc_def emit_def)
    ultimately show ?thesis by blast
  qed
  have part2: "createVertexBuffer vd d
               = (Inl (SizeMismatch ''[object ArrayBuffer]'' (elemCount (hd vd) * of_nat (v_size v))), d)"
    if split: "vd = pre @ v # post" and before: "\<forall>u\<in>set pre. elemCount u = elemCount (hd vd)"
      and differs: "elemCount v \<noteq> elemCount (hd vd)" for pre v post
  proof -
    have "\<forall>u\<in>set pre. elemCount u = elemCount (hd vd) \<and> legal_format (v_type u) (v_size u)"
      using before legal split by simp
    from vertexAttributes_mismatch [OF this differs, of post 0 "[]"] split
    have "vertexAttributes (elemCount (hd vd)) vd 0 []
        = Inl (SizeMismatch ''[object ArrayBuffer]'' (elemCount (hd vd) * of_nat (v_size v)))"
      by simp
    then show ?thesis
      unfolding createVertexBuffer_def vd by (simp add: Let_def)
  qed
  from part1 part2 show ?thesis by blast
qed


theorem createVertexBuffer_interleaves_witness:
  "goodAttributes \<noteq> []
   \<and> list_all (\<lambda>v. legal_format (v_type v) (v_size v) \<and> elemCount v = of_nat 2) goodAttributes
   \<and> (\<exists>data.
        createVertexBuffer goodAttributes device0 =
          (Inr \<lparr>vb_buffer = Some 0, vb_attributes = expectedAttributes goodAttributes,
                vb_stride = strideOf goodAttributes, vb_size = 2\<rparr>,
           \<lparr>nextHandle = 1,
            calls = [CreateBuffer 0 usage_vertex (strideOf goodAttributes * 2), WriteBytes 0 0 data]\<rparr>)
      \<and> length data = strideOf goodAttributes * 2
      \<and> littleEndianValues (cells goodAttributes 2) data)
   \<and> strideOf goodAttributes = 28
   \<and> map a_offset (expectedAttributes goodAttributes) = [0, 12]
   \<and> shortAttributes \<noteq> []
   \<and> list_all (\<lambda>v. legal_format (v_type v) (v_size v)) shortAttributes
   \<and> elemCount (shortAttributes ! 0) = elemCount (hd shortAttributes)
   \<and> elemCount (shortAttributes ! 1) \<noteq> elemCount (hd shortAttributes)
   \<and> createVertexBuffer shortAttributes device0 = (Inl (SizeMismatch ''[object ArrayBuffer]'' 8), device0)"
proof -
  have g: "goodAttributes \<noteq> []" "\<forall>v\<in>set goodAttributes. legal_format (v_type v) (v_size v)"
    "\<forall>v\<in>set goodAttributes. elemCount v = of_nat 2"
    by (simp_all add: goodAttributes_def legal_format_def elemCount_def)
  have s: "shortAttributes \<noteq> []" "\<forall>v\<in>set shortAttributes. legal_format (v_type v) (v_size v)"
    "shortAttributes = [shortAttributes ! 0] @ shortAttributes ! 1 # []"
    "\<forall>u\<in>set [shortAttributes ! 0]. elemCount u = elemCount (hd shortAttributes)"
    "elemCount (shortAttributes ! 1) \<noteq> elemCount (hd shortAttributes)"
    "elemCount (hd shortAttributes) * of_nat (v_size (shortAttributes ! 1)) = 8"
    by (simp_all add: shortAttributes_def legal_format_def elemCount_def)
  have e: "strideOf goodAttributes = 28" "map a_offset (expectedAttributes goodAttributes) = [0, 12]"
    by (simp_all add: goodAttributes_def strideOf_def expectedAttributes_def upt_rec)
  from createVertexBuffer_interleaves [OF s(1) s(2), of 0 device0] s(3-6)
  have short: "createVertexBuffer shortAttributes device0 = (Inl (SizeMismatch ''[object ArrayBuffer]'' 8), device0)"
    by metis
  from createVertexBuffer_interleaves [OF g(1) g(2), of 2 device0] g(3)
  obtain data where
    "createVertexBuffer goodAttributes device0 =
          (Inr \<lparr>vb_buffer = Some (nextHandle device0), vb_attributes = expectedAttributes goodAttributes,
                vb_stride = strideOf goodAttributes, vb_size = of_nat 2\<rparr>,
           device0\<lparr>nextHandle := Suc (nextHandle device0),
             calls := calls device0 @ [CreateBuffer (nextHandle device0) usage_vertex (strideOf goodAttributes * 2),
                                       WriteBytes (nextHandle device0) 0 data]\<rparr>)"
    "length data = strideOf goodAttributes * 2"
    "littleEndianValues (cells goodAttributes 2) data"
    by blast
  then have good: "\<exists>data.
        createVertexBuffer goodAttributes device0 =
          (Inr \<lparr>vb_buffer = Some 0, vb_attributes = expectedAttributes goodAttributes,
                vb_stride = strideOf goodAttributes, vb_size = 2\<rparr>,
           \<lparr>nextHandle = 1,
            calls = [CreateBuffer 0 usage_vertex (strideOf goodAttributes * 2), WriteBytes 0 0 data]\<rparr>)
      \<and> length data = strideOf goodAttributes * 2
      \<and> littleEndianValues (cells goodAttributes 2) data"
    by (intro exI [of _ data]) (simp add: device0_def)
  from good short g s(1,2,4,5) e show ?thesis
    by (simp add: list_all_iff)
qed

text \<open>
  C5 as it is stated fails where the loop of \<^verbatim>\<open>#createVertexBuffer\<close> derives the vertex
  format: one attribute of single \<^verbatim>\<open>u8\<close> values agrees with itself on four elements, and
  composition throws the type error of \<^verbatim>\<open>#typeToFormat\<close>. It fails where the element
  count is not whole: one attribute of three floats per element that holds four floats
  counts 4/3 elements, a buffer of 16 bytes is created, and the second turn of
  \<^verbatim>\<open>#chainArrays\<close> writes past its end. And the size-mismatch error does not name the
  offending values: for a colour attribute one element short its message reads
  \<^verbatim>\<open>[object ArrayBuffer]\<close> where the values are meant, and the expected length 8. (A
  signalling NaN among the values is written as a quiet one: it is the same number, in
  other bytes.)
\<close>

theorem createVertexBuffer_counterexample:
  "byteAttributes \<noteq> [] \<and> elemCount (hd byteAttributes) = 4
   \<and> createVertexBuffer byteAttributes device0 = (Inl (IllegalSize 1 u8), device0)
   \<and> raggedAttributes \<noteq> [] \<and> elemCount (hd raggedAttributes) = 4 / 3
   \<and> createVertexBuffer raggedAttributes device0
       = (Inl ViewBounds, \<lparr>nextHandle = 1, calls = [CreateBuffer 0 usage_vertex 16]\<rparr>)
   \<and> createVertexBuffer shortAttributes device0 = (Inl (SizeMismatch ''[object ArrayBuffer]'' 8), device0)
   \<and> snd (createVertexBuffer nanAttributes device0)
       = \<lparr>nextHandle = 1,
          calls = [CreateBuffer 0 usage_vertex 8,
                   WriteBytes 0 0 [0x01, 0x00, 0xC0, 0x7F, 0x00, 0x00, 0x80, 0x3F]]\<rparr>"
  by (simp add: byteAttributes_def raggedAttributes_def shortAttributes_def nanAttributes_def
        device0_def isNaN32_def renderer_defs)
subsection \<open>The index buffer\<close>

lemma elemCount_nonneg: "0 \<le> elemCount v"
  by (simp add: elemCount_def)

lemma strideOf_pos:
  assumes "\<forall>v\<in>set (v0 # rest). 0 < v_size v"
  shows "0 < strideOf (v0 # rest)"
  using assms BYTES_PER_ELEMENT_pos [of "v_type v0"] by (simp add: strideOf_def)

lemma createVertexBuffer_whole:
  assumes ok: "createVertexBuffer vd d = (Inr vb, d')" and pos: "\<forall>v\<in>set vd. 0 < v_size v"
  shows "\<exists>n. vb_size vb = of_nat n \<and> (case vd of [] \<Rightarrow> 0 | v0 # _ \<Rightarrow> elemCount v0) = of_nat n"
proof (cases vd)
  case Nil
  with ok show ?thesis by (auto simp: createVertexBuffer_def)
next
  case (Cons v0 rest)
  let ?len = "elemCount v0"
  obtain attrs stride where va: "vertexAttributes ?len vd 0 [] = Inr (attrs, stride)"
    using ok Cons by (cases "vertexAttributes ?len vd 0 []") (auto simp: createVertexBuffer_def Let_def)
  have stride: "stride = strideOf vd"
    using vertexAttributes_stride [OF va] by simp
  obtain data where ca: "chainArrays vd (of_nat stride * ?len) = Inr data" and size: "vb_size vb = ?len"
    using ok Cons va
    by (cases "chainArrays vd (of_nat stride * ?len)")
       (auto simp: createVertexBuffer_def Let_def alloc_def split: prod.splits)
  show ?thesis
  proof (cases "?len = 0")
    case True
    with size Cons show ?thesis by (intro exI [of _ 0]) simp
  next
    case False
    then have lpos: "0 < ?len"
      using elemCount_nonneg [of v0] by simp
    have view: "\<forall>b\<in>set (v0 # rest). viewable b"
      using chainArrays_unviewable [of v0 rest, OF _ lpos, of "of_nat stride * ?len"] ca Cons by auto
    let ?N = "nat \<lceil>?len\<rceil>" and ?S = "strideOf (v0 # rest)"
    have fit: "?N * ?S \<le> nat \<lfloor>of_nat stride * ?len\<rfloor>"
      using chainArrays_char [OF view, of "of_nat stride * ?len"] ca Cons
      by (auto split: if_splits)
    have S: "0 < ?S"
      using pos Cons strideOf_pos by blast
    have "(of_nat (?N * ?S) :: rat) \<le> of_nat (nat \<lfloor>of_nat stride * ?len\<rfloor>)"
      using fit of_nat_le_iff by blast
    also have "\<dots> = of_int \<lfloor>of_nat stride * ?len\<rfloor>"
      using lpos by simp
    also have "\<dots> \<le> of_nat stride * ?len"
      by (rule of_int_floor_le)
    finally have "(of_nat ?N :: rat) * of_nat ?S \<le> of_nat ?S * ?len"
      using stride Cons by simp
    then have "(of_nat ?N :: rat) \<le> ?len"
      using S by (simp add: mult.commute)
    moreover have "?len \<le> of_nat ?N"
      using lpos by (simp add: of_nat_ceiling less_imp_le)
    ultimately have "?len = of_nat ?N" by simp
    with size Cons show ?thesis
      by (intro exI [of _ ?N]) simp
  qed
qed

lemma vertexElementCount_whole:
  assumes ok: "createVertexBuffer (vertexDescriptor p) d = (Inr vb, d')"
    and pos: "\<forall>v\<in>set (vertexDescriptor p). 0 < v_size v"
  shows "vb_size vb = of_nat (vertexElementCount p)"
proof (cases "vertexDescriptor p")
  case Nil
  with ok show ?thesis
    by (auto simp: createVertexBuffer_def vertexElementCount_def)
next
  case (Cons v0 rest)
  from createVertexBuffer_whole [OF ok pos] Cons obtain n where
    n: "vb_size vb = of_nat n" "elemCount v0 = of_nat n"
    by auto
  have "0 < v_size v0"
    using pos Cons by simp
  with n(2) have "length (v_values v0) = n * v_size v0 * BYTES_PER_ELEMENT (v_type v0)"
    by (simp add: elemCount_whole)
  then have "length (v_values v0) div BYTES_PER_ELEMENT (v_type v0) div v_size v0 = n"
    using BYTES_PER_ELEMENT_pos [of "v_type v0"] \<open>0 < v_size v0\<close> by simp
  with n(1) Cons show ?thesis
    by (simp add: vertexElementCount_def)
qed

lemma createIndexBuffer_char:
  "createIndexBuffer idx0 (of_nat n) d =
     (let idx = (if idx0 = [] then [0..<n] else idx0);
          w = (if n \<le> 65535 then uint16 else uint32)
      in (\<lparr>ib_buffer = nextHandle d, ib_vertexCount = length idx, ib_type = w\<rparr>,
          d\<lparr>nextHandle := Suc (nextHandle d),
            calls := calls d @ (if idx0 = [] then [Warn ''[wgpu] no indices found.''] else [])
                       @ [CreateBuffer (nextHandle d) usage_index (length idx * index_bytes w),
                          SetMapped (nextHandle d) w (map (\<lambda>i. i mod 2 ^ (8 * index_bytes w)) idx)]\<rparr>))"
proof -
  have "((of_nat n :: rat) > 65535) = (\<not> n \<le> 65535)"
    by (metis linorder_not_le of_nat_less_iff of_nat_numeral)
  then show ?thesis
    by (simp add: createIndexBuffer_def Let_def alloc_def emit_def upto_number_def)
qed

text \<open>
  C6, amended. For every compilation that returns, of a program whose component counts
  are positive (they are 1 to 4 by their type), with \<open>n\<close> the vertex element count: the
  index list is the caller's, or \<open>0, ..., n - 1\<close> with a warning when the caller's is
  empty; the index type is \<^verbatim>\<open>uint16\<close> if \<open>n \<le> 65535\<close> and \<^verbatim>\<open>uint32\<close> otherwise; the
  executable's count is the length of the index list; and the compilation, after the
  warning if any, creates the index buffer with that length times two bytes (16 bit) or
  four bytes (32 bit) as its size and stores in it the indices of the list, each modulo
  two to the power of the index width: the index list itself, when every index of the
  list is below that power.
\<close>

theorem createProgram_index_buffer:
  assumes pos: "\<forall>v\<in>set (vertexDescriptor p). 0 < v_size v" and ok: "createProgram p r = (Inr e, r')"
  shows "\<exists>before after stored.
       indexType e = (if vertexElementCount p \<le> 65535 then uint16 else uint32)
     \<and> vertexCount e = length (indexList p (vertexElementCount p))
     \<and> calls (device r') = calls (device r) @ before
           @ (if indices p = [] then [Warn ''[wgpu] no indices found.''] else [])
           @ [CreateBuffer (indexBuffer e) usage_index
                (length (indexList p (vertexElementCount p)) * (if vertexElementCount p \<le> 65535 then 2 else 4)),
              SetMapped (indexBuffer e) (indexType e) stored]
           @ after
     \<and> stored = map (\<lambda>i. i mod 2 ^ indexBits (vertexElementCount p)) (indexList p (vertexElementCount p))
     \<and> ((\<forall>i\<in>set (indexList p (vertexElementCount p)). i < 2 ^ indexBits (vertexElementCount p)) \<longrightarrow>
           stored = indexList p (vertexElementCount p))"
proof -
  from ok obtain ls d1 u d2 vb d3 bgs us d4 ib d5 where
    l: "createGroupLayout (groups p) (device r) = (ls, d1)" and
    b: "createUniformBuffer (groups p) d1 = (u, d2)" and
    v: "createVertexBuffer (vertexDescriptor p) d2 = (Inr vb, d3)" and
    g: "createBindGroup (globalBuffers r) (groups p) ls u d3 = (Inr (bgs, us), d4)" and
    i: "createIndexBuffer (indices p) (vb_size vb) d4 = (ib, d5)" and
    e: "indexType e = ib_type ib" "vertexCount e = ib_vertexCount ib" "indexBuffer e = ib_buffer ib" and
    r': "\<exists>pd. calls (device r') = calls d5 @ [CreateShaderModule (nextHandle d5) (code p),
        CreatePipelineLayout (Suc (nextHandle d5)) ls,
        CreateRenderPipeline (Suc (Suc (nextHandle d5))) pd]"
    by (rule createProgram_steps)
  let ?n = "vertexElementCount p"
  have n: "vb_size vb = of_nat ?n"
    using v pos by (rule vertexElementCount_whole)
  let ?idx = "indexList p ?n" and ?w = "if ?n \<le> 65535 then uint16 else uint32"
  let ?stored = "map (\<lambda>i. i mod 2 ^ indexBits ?n) ?idx"
  have bits: "8 * index_bytes ?w = indexBits ?n"
    by (simp add: indexBits_def)
  have width: "index_bytes ?w = (if ?n \<le> 65535 then 2 else 4)"
    by simp
  from i n have ib: "ib = \<lparr>ib_buffer = nextHandle d4, ib_vertexCount = length ?idx, ib_type = ?w\<rparr>"
    and raw: "calls d5 = calls d4 @ (if indices p = [] then [Warn ''[wgpu] no indices found.''] else [])
                       @ [CreateBuffer (nextHandle d4) usage_index (length ?idx * index_bytes ?w),
                          SetMapped (nextHandle d4) ?w (map (\<lambda>i. i mod 2 ^ (8 * index_bytes ?w)) ?idx)]"
    by (auto simp: createIndexBuffer_char indexList_def Let_def)
  have d5: "calls d5 = calls d4 @ (if indices p = [] then [Warn ''[wgpu] no indices found.''] else [])
                       @ [CreateBuffer (nextHandle d4) usage_index (length ?idx * (if ?n \<le> 65535 then 2 else 4)),
                          SetMapped (nextHandle d4) ?w ?stored]"
    using raw [unfolded bits] by simp
  have "extends (\<lambda>_. True) (device r) d1"
    using createGroupLayout_extends [OF l] by (rule extends_weaken) simp
  moreover have "extends (\<lambda>_. True) d1 d2"
    using createUniformBuffer_extends [OF b] by (auto intro: extends_weaken)
  moreover have "extends (\<lambda>_. True) d2 d3"
    using v by (rule createVertexBuffer_extends)
  moreover have "extends (\<lambda>_. True) d3 d4"
    using createBindGroup_extends [OF g] by (auto intro: extends_weaken)
  ultimately have "extends (\<lambda>_. True) (device r) d4"
    using extends_trans by blast
  then obtain before where before: "calls d4 = calls (device r) @ before"
    by (auto simp: extends_def)
  from r' obtain after where after: "calls (device r') = calls d5 @ after"
    by blast
  have "?stored = ?idx" if "\<forall>i\<in>set ?idx. i < 2 ^ indexBits ?n"
    using that by (intro map_idI) simp
  with e ib d5 before after show ?thesis
    by (intro exI [of _ before] exI [of _ after] exI [of _ ?stored]) simp
qed


theorem createProgram_index_buffer_witness:
  "list_all (\<lambda>v. 0 < v_size v) (vertexDescriptor entityProgram)
   \<and> createProgram entityProgram (renderer engine0) = (Inr compiledExecutable, compiledRenderer)
   \<and> vertexElementCount entityProgram = 2
   \<and> indexList entityProgram 2 = [0, 1]
   \<and> list_all (\<lambda>i. i < 2 ^ indexBits 2) [0, 1 :: nat]
   \<and> (\<exists>before after.
       indexType compiledExecutable = uint16
     \<and> vertexCount compiledExecutable = 2
     \<and> calls (device compiledRenderer) = calls (device (renderer engine0)) @ before
           @ [Warn ''[wgpu] no indices found.'',
              CreateBuffer (indexBuffer compiledExecutable) usage_index 4,
              SetMapped (indexBuffer compiledExecutable) uint16 [0, 1]]
           @ after)"
proof -
  have h1: "\<forall>v\<in>set (vertexDescriptor entityProgram). 0 < v_size v"
    by (simp add: entityProgram_def)
  have "\<exists>e. fst (createProgram entityProgram (renderer engine0)) = Inr e"
    by (simp add: renderer_defs newEngine_def example_defs)
  then have h2: "createProgram entityProgram (renderer engine0) = (Inr compiledExecutable, compiledRenderer)"
    by (auto simp: compiledExecutable_def compiledRenderer_def prod_eq_iff)
  have n: "vertexElementCount entityProgram = 2" "indices entityProgram = []"
    by (simp_all add: vertexElementCount_def entityProgram_def)
  then have idx: "indexList entityProgram 2 = [0, 1]"
    by (simp add: indexList_def upt_rec)
  have h3: "\<forall>i\<in>set [0, 1 :: nat]. i < 2 ^ indexBits 2"
    by (simp add: indexBits_def)
  from createProgram_index_buffer [OF h1 h2] obtain before after stored where
    "indexType compiledExecutable = (if vertexElementCount entityProgram \<le> 65535 then uint16 else uint32)"
    "vertexCount compiledExecutable = length (indexList entityProgram (vertexElementCount entityProgram))"
    "calls (device compiledRenderer) = calls (device (renderer engine0)) @ before
           @ (if indices entityProgram = [] then [Warn ''[wgpu] no indices found.''] else [])
           @ [CreateBuffer (indexBuffer compiledExecutable) usage_index
                (length (indexList entityProgram (vertexElementCount entityProgram))
                   * (if vertexElementCount entityProgram \<le> 65535 then 2 else 4)),
              SetMapped (indexBuffer compiledExecutable) (indexType compiledExecutable) stored]
           @ after"
    "(\<forall>i\<in>set (indexList entityProgram (vertexElementCount entityProgram)).
         i < 2 ^ indexBits (vertexElementCount entityProgram)) \<longrightarrow>
       stored = indexList entityProgram (vertexElementCount entityProgram)"
    by blast
  then have "indexType compiledExecutable = uint16 \<and> vertexCount compiledExecutable = 2
     \<and> calls (device compiledRenderer) = calls (device (renderer engine0)) @ before
           @ [Warn ''[wgpu] no indices found.'',
              CreateBuffer (indexBuffer compiledExecutable) usage_index 4,
              SetMapped (indexBuffer compiledExecutable) uint16 [0, 1]]
           @ after"
    unfolding n idx using h3 by simp
  then have "\<exists>before after.
       indexType compiledExecutable = uint16
     \<and> vertexCount compiledExecutable = 2
     \<and> calls (device compiledRenderer) = calls (device (renderer engine0)) @ before
           @ [Warn ''[wgpu] no indices found.'',
              CreateBuffer (indexBuffer compiledExecutable) usage_index 4,
              SetMapped (indexBuffer compiledExecutable) uint16 [0, 1]]
           @ after"
    by blast
  with h1 h2 n(1) idx h3 show ?thesis
    by (simp add: list_all_iff)
qed

text \<open>
  C6 as it is stated fails for indices that do not fit the index width: \<^verbatim>\<open>range.set\<close>
  stores each index modulo two to the power of the width. The entity program has two
  vertex elements, so its indices are 16 bit wide; with the caller's indices 65536,
  70000 and 5 the compilation returns and the index buffer holds 0, 4464 and 5.
\<close>

theorem createProgram_index_buffer_counterexample:
  "indices wideProgram = [65536, 70000, 5] \<and> vertexElementCount wideProgram = 2
   \<and> map_sum (\<lambda>e. e) indexType (fst (createProgram wideProgram (renderer engine0))) = Inr uint16
   \<and> map_sum (\<lambda>e. e) indexBuffer (fst (createProgram wideProgram (renderer engine0))) = Inr 4
   \<and> SetMapped 4 uint16 [65536, 70000, 5] \<notin> set (calls (device (snd (createProgram wideProgram (renderer engine0)))))
   \<and> SetMapped 4 uint16 [0, 4464, 5] \<in> set (calls (device (snd (createProgram wideProgram (renderer engine0)))))"
  by (simp add: wideProgram_def vertexElementCount_def renderer_defs newEngine_def example_defs)

end
